theory Spec2Isabelle
  imports Main "HOL-Library.Word" "HOL-Library.Sublist"
begin

section \<open>JavaScript strings and values\<close>

text \<open>
  A JavaScript string is a sequence of UTF-16 code units. \<open>str\<close> writes an ASCII
  literal as such a sequence.
\<close>

type_synonym code_unit = "16 word"

type_synonym jsstring = "code_unit list"

definition str :: "string \<Rightarrow> jsstring" where
  "str s = map of_char s"

text \<open>
  The values the two components handle are the values \<open>JSON.parse\<close> builds, and
  \<open>undefined\<close>, which is \<open>None\<close> of \<open>json option\<close>. A number is kept as the
  decimal its text denotes: \<open>JNum neg n e\<close> is \<open>(-1)^neg * n * 10^e\<close>; the double
  the engine stores is a function of it. An object is the list of its own
  properties.
\<close>

datatype json =
    JNull
  | JBool bool
  | JNum bool nat int
  | JStr jsstring
  | JArr "json list"
  | JObj "(jsstring \<times> json) list"

text \<open>
  Errors are values. Those the engine raises itself carry a message of the
  engine's wording, which the model takes as a parameter: \<open>message eng f\<close> is
  the message for the fault \<open>f\<close>, and \<open>number_string eng\<close> is
  \<open>Number.prototype.toString\<close>. React is part of what runs the program:
  \<open>ObjectAsChild\<close> is its error for an object in child position, and
  \<open>url_attribute eng s\<close> is what React DOM writes into an \<open>href\<close> for the string
  \<open>s\<close>, which is \<open>s\<close> itself unless the version replaces \<open>javascript:\<close> URLs.
\<close>

datatype js_error = GenericError jsstring | TypeError jsstring | SyntaxError jsstring

datatype fault =
    ReadOfNull string
  | NotAFunction string
  | NotIterable
  | NotPrimitive
  | BadJSON jsstring
  | ObjectAsChild

record engine =
  message :: "fault \<Rightarrow> jsstring"
  number_string :: "bool \<Rightarrow> nat \<Rightarrow> int \<Rightarrow> jsstring"
  url_attribute :: "jsstring \<Rightarrow> jsstring"

fun err_name :: "js_error \<Rightarrow> jsstring" where
  "err_name (GenericError m) = str ''Error''"
| "err_name (TypeError m) = str ''TypeError''"
| "err_name (SyntaxError m) = str ''SyntaxError''"

fun err_message :: "js_error \<Rightarrow> jsstring" where
  "err_message (GenericError m) = m"
| "err_message (TypeError m) = m"
| "err_message (SyntaxError m) = m"

text \<open>\<open>typeof v\<close>.\<close>

fun typeof :: "json option \<Rightarrow> string" where
  "typeof None = ''undefined''"
| "typeof (Some JNull) = ''object''"
| "typeof (Some (JBool b)) = ''boolean''"
| "typeof (Some (JNum neg n e)) = ''number''"
| "typeof (Some (JStr s)) = ''string''"
| "typeof (Some (JArr xs)) = ''object''"
| "typeof (Some (JObj kvs)) = ''object''"

text \<open>
  Truthiness. A number is falsy when its double is zero: the decimal is zero, or
  it is at most \<open>2^-1075\<close>, half the least positive double, and rounds to zero.
\<close>

definition rounds_to_zero :: "nat \<Rightarrow> int \<Rightarrow> bool" where
  "rounds_to_zero n e =
     (if 0 \<le> e then n = 0 else n * 2 ^ 1075 \<le> 10 ^ nat (- e))"

fun truthy :: "json option \<Rightarrow> bool" where
  "truthy None = False"
| "truthy (Some JNull) = False"
| "truthy (Some (JBool b)) = b"
| "truthy (Some (JNum neg n e)) = (\<not> rounds_to_zero n e)"
| "truthy (Some (JStr s)) = (s \<noteq> [])"
| "truthy (Some (JArr xs)) = True"
| "truthy (Some (JObj kvs)) = True"

text \<open>\<open>a || b\<close>, with a right operand that is never \<open>undefined\<close>.\<close>

definition or_else :: "json option \<Rightarrow> json \<Rightarrow> json" where
  "or_else a b = (case a of Some v \<Rightarrow> if truthy a then v else b | None \<Rightarrow> b)"

text \<open>
  The properties the program reads. None of them is a built-in property of
  strings, arrays, numbers, booleans or \<open>Object.prototype\<close>, so a read finds an
  own property of an object or \<open>undefined\<close>; on \<open>null\<close> it throws.
\<close>

datatype property =
    Prole | Pcontent | Pmessages | Pmessage | Perror
  | Presults | Ptotal_results | Pquery
  | Ppmid | Purl | Ptitle | Pauthors | Pjournal_citation | Psnippet

fun prop_name :: "property \<Rightarrow> string" where
  "prop_name Prole = ''role''"
| "prop_name Pcontent = ''content''"
| "prop_name Pmessages = ''messages''"
| "prop_name Pmessage = ''message''"
| "prop_name Perror = ''error''"
| "prop_name Presults = ''results''"
| "prop_name Ptotal_results = ''total_results''"
| "prop_name Pquery = ''query''"
| "prop_name Ppmid = ''pmid''"
| "prop_name Purl = ''url''"
| "prop_name Ptitle = ''title''"
| "prop_name Pauthors = ''authors''"
| "prop_name Pjournal_citation = ''journal_citation''"
| "prop_name Psnippet = ''snippet''"

fun own :: "json \<Rightarrow> property \<Rightarrow> json option" where
  "own (JObj kvs) p = map_of kvs (str (prop_name p))"
| "own v p = None"

text \<open>\<open>v.p\<close> and \<open>v?.p\<close>.\<close>

definition get :: "engine \<Rightarrow> json \<Rightarrow> property \<Rightarrow> js_error + json option" where
  "get eng v p =
     (if v = JNull then Inl (TypeError (message eng (ReadOfNull (prop_name p))))
      else Inr (own v p))"

definition opt_get :: "json \<Rightarrow> property \<Rightarrow> json option" where
  "opt_get v p = (if v = JNull then None else own v p)"

definition is_array :: "json option \<Rightarrow> bool" where
  "is_array v = (case v of Some (JArr xs) \<Rightarrow> True | _ \<Rightarrow> False)"

text \<open>Sequencing of steps that may throw, and whether a step throws.\<close>

definition bind_err :: "js_error + 'a \<Rightarrow> ('a \<Rightarrow> js_error + 'b) \<Rightarrow> js_error + 'b" where
  "bind_err m f = (case m of Inl e \<Rightarrow> Inl e | Inr x \<Rightarrow> f x)"

definition throws :: "js_error + 'a \<Rightarrow> bool" where
  "throws m = (case m of Inl e \<Rightarrow> True | Inr x \<Rightarrow> False)"

subsection \<open>Whitespace and \<open>String.prototype.trim\<close>\<close>

text \<open>
  \<open>is_space\<close> is the class \<open>\s\<close> of regular expressions and the set \<open>trim\<close> strips:
  WhiteSpace and LineTerminator of ECMA-262.
\<close>

definition is_space :: "code_unit \<Rightarrow> bool" where
  "is_space c =
     (c \<in> {0x09, 0x0A, 0x0B, 0x0C, 0x0D, 0x20, 0xA0, 0x1680, 0x2028, 0x2029,
            0x202F, 0x205F, 0x3000, 0xFEFF}
      \<or> (0x2000 \<le> c \<and> c \<le> 0x200A))"

definition trim :: "jsstring \<Rightarrow> jsstring" where
  "trim s = rev (dropWhile is_space (rev (dropWhile is_space s)))"

text \<open>\<open>v.trim()\<close> on any value: only a string has the method.\<close>

fun trim_method :: "engine \<Rightarrow> json option \<Rightarrow> js_error + jsstring" where
  "trim_method eng (Some (JStr s)) = Inr (trim s)"
| "trim_method eng None = Inl (TypeError (message eng (ReadOfNull ''trim'')))"
| "trim_method eng (Some JNull) = Inl (TypeError (message eng (ReadOfNull ''trim'')))"
| "trim_method eng (Some v) = Inl (TypeError (message eng (NotAFunction ''trim'')))"

subsection \<open>Regular expressions\<close>

text \<open>
  The two regular expressions of \<open>tryParsePubMed\<close> are sequences of literals,
  an optional literal, and greedy and lazy stars over a character class, one of
  them in a capturing group. \<open>rmatch\<close> is the backtracking matcher of ECMA-262 on
  such a sequence, anchored at the start of the input: a greedy star takes as
  many characters as it can and gives them back one by one, a lazy star takes as
  few as it can, an optional literal is tried present first. The result lists
  the text each node matched.
\<close>

datatype cls = AnyChar | Space

fun in_cls :: "cls \<Rightarrow> code_unit \<Rightarrow> bool" where
  "in_cls AnyChar c = True"
| "in_cls Space c = is_space c"

datatype node = Lit jsstring | OptLit jsstring | Greedy cls | Lazy cls | Cap node

text \<open>One more character for the star at the head of the sequence.\<close>

fun grow :: "code_unit \<Rightarrow> jsstring list \<Rightarrow> jsstring list" where
  "grow c [] = []"
| "grow c (seg # segs) = (c # seg) # segs"

fun rmatch :: "node list \<Rightarrow> jsstring \<Rightarrow> jsstring list option" where
  "rmatch [] s = Some []"
| "rmatch (Lit l # ns) s =
     (if prefix l s then map_option (Cons l) (rmatch ns (drop (length l) s)) else None)"
| "rmatch (OptLit l # ns) s =
     (case (if prefix l s then map_option (Cons l) (rmatch ns (drop (length l) s)) else None) of
        Some r \<Rightarrow> Some r
      | None \<Rightarrow> map_option (Cons []) (rmatch ns s))"
| "rmatch (Greedy k # ns) [] = map_option (Cons []) (rmatch ns [])"
| "rmatch (Greedy k # ns) (c # cs) =
     (case (if in_cls k c then map_option (grow c) (rmatch (Greedy k # ns) cs) else None) of
        Some r \<Rightarrow> Some r
      | None \<Rightarrow> map_option (Cons []) (rmatch ns (c # cs)))"
| "rmatch (Lazy k # ns) [] = map_option (Cons []) (rmatch ns [])"
| "rmatch (Lazy k # ns) (c # cs) =
     (case map_option (Cons []) (rmatch ns (c # cs)) of
        Some r \<Rightarrow> Some r
      | None \<Rightarrow> if in_cls k c then map_option (grow c) (rmatch (Lazy k # ns) cs) else None)"
| "rmatch (Cap n # ns) s = rmatch (n # ns) s"

text \<open>The leftmost match: the matcher is tried at each position in turn.\<close>

fun first_match :: "node list \<Rightarrow> jsstring \<Rightarrow> jsstring list option" where
  "first_match re [] = rmatch re []"
| "first_match re (c # cs) =
     (case rmatch re (c # cs) of Some r \<Rightarrow> Some r | None \<Rightarrow> first_match re cs)"

fun is_cap :: "node \<Rightarrow> bool" where
  "is_cap (Cap n) = True"
| "is_cap n = False"

text \<open>
  \<open>s.match(re)\<close> for a regular expression without the \<open>g\<close> flag: \<open>null\<close> (here
  \<open>None\<close>), or the array of the whole match and the captured groups. \<open>index\<close>
  reads an element of the array: \<open>undefined\<close> beyond its end.
\<close>

definition match_re :: "node list \<Rightarrow> jsstring \<Rightarrow> jsstring list option" where
  "match_re re s =
     map_option (\<lambda>segs. concat segs # map snd (filter (\<lambda>(n, seg). is_cap n) (zip re segs)))
       (first_match re s)"

definition index :: "jsstring list \<Rightarrow> nat \<Rightarrow> json option" where
  "index g i = (if i < length g then Some (JStr (g ! i)) else None)"

text \<open>\<open>/```(?:json)?\s*([\s\S]*?)```/\<close> and \<open>/\{[\s\S]*\}/\<close>.\<close>

definition fence :: jsstring where
  "fence = [0x60, 0x60, 0x60]"

definition fence_re :: "node list" where
  "fence_re = [Lit fence, OptLit (str ''json''), Greedy Space, Cap (Lazy AnyChar), Lit fence]"

definition brace_re :: "node list" where
  "brace_re = [Lit [0x7B], Greedy AnyChar, Lit [0x7D]]"

section \<open>\<open>JSON.parse\<close>\<close>

text \<open>
  \<open>JSON.parse\<close> belongs to the engine, not to the repository. It is modelled after
  the JSON grammar of ECMA-262 (no reviver): a lexer for the tokens, and a
  parser that reads the tokens once with a stack of the arrays and objects
  still open.
\<close>

datatype token =
    LBrace | RBrace | LBracket | RBracket | Colon | Comma
  | TString jsstring | TNumber bool nat int | TTrue | TFalse | TNull

definition json_space :: "code_unit \<Rightarrow> bool" where
  "json_space c = (c = 0x09 \<or> c = 0x0A \<or> c = 0x0D \<or> c = 0x20)"

definition is_digit :: "code_unit \<Rightarrow> bool" where
  "is_digit c = (0x30 \<le> c \<and> c \<le> 0x39)"

definition digit_val :: "code_unit \<Rightarrow> nat" where
  "digit_val c = unat c - 48"

definition digits_val :: "jsstring \<Rightarrow> nat" where
  "digits_val ds = foldl (\<lambda>n d. 10 * n + digit_val d) 0 ds"

definition hex_val :: "code_unit \<Rightarrow> nat option" where
  "hex_val c =
     (if 0x30 \<le> c \<and> c \<le> 0x39 then Some (unat c - 48)
      else if 0x41 \<le> c \<and> c \<le> 0x46 then Some (unat c - 55)
      else if 0x61 \<le> c \<and> c \<le> 0x66 then Some (unat c - 87)
      else None)"

text \<open>The code unit of \<open>\uXXXX\<close>, from the four characters after the \<open>u\<close>.\<close>

fun hex4 :: "jsstring \<Rightarrow> code_unit option" where
  "hex4 [a, b, c, d] =
     (case (hex_val a, hex_val b, hex_val c, hex_val d) of
        (Some x, Some y, Some z, Some w) \<Rightarrow> Some (word_of_nat (4096 * x + 256 * y + 16 * z + w))
      | _ \<Rightarrow> None)"
| "hex4 s = None"

definition escape :: "code_unit \<Rightarrow> code_unit option" where
  "escape c =
     (if c = 0x22 then Some 0x22
      else if c = 0x5C then Some 0x5C
      else if c = 0x2F then Some 0x2F
      else if c = 0x62 then Some 0x08
      else if c = 0x66 then Some 0x0C
      else if c = 0x6E then Some 0x0A
      else if c = 0x72 then Some 0x0D
      else if c = 0x74 then Some 0x09
      else None)"

text \<open>
  A string, from after its opening quote: the characters it denotes and the
  input after its closing quote.
\<close>

fun lex_string :: "jsstring \<Rightarrow> (jsstring \<times> jsstring) option" where
  "lex_string [] = None"
| "lex_string (c # cs) =
     (if c = 0x22 then Some ([], cs)
      else if c = 0x5C then
        (case cs of
           [] \<Rightarrow> None
         | e # es \<Rightarrow>
             if e = 0x75 then
               (case hex4 (take 4 es) of
                  None \<Rightarrow> None
                | Some u \<Rightarrow> map_option (apfst (Cons u)) (lex_string (drop 4 es)))
             else
               (case escape e of
                  None \<Rightarrow> None
                | Some x \<Rightarrow> map_option (apfst (Cons x)) (lex_string es)))
      else if c < 0x20 then None
      else map_option (apfst (Cons c)) (lex_string cs))"

text \<open>
  A number: an optional minus, \<open>0\<close> or a digit sequence without a leading zero,
  an optional fraction, an optional exponent.
\<close>

definition lex_exponent :: "jsstring \<Rightarrow> (int \<times> jsstring) option" where
  "lex_exponent s =
     (case s of
        [] \<Rightarrow> Some (0, s)
      | c # cs \<Rightarrow>
          if c = 0x65 \<or> c = 0x45 then
            (let neg = (case cs of [] \<Rightarrow> False | d # ds \<Rightarrow> d = 0x2D);
                 signed = (case cs of [] \<Rightarrow> False | d # ds \<Rightarrow> d = 0x2D \<or> d = 0x2B);
                 rest = (if signed then tl cs else cs);
                 ds = takeWhile is_digit rest
             in if ds = [] then None
                else Some ((if neg then - int (digits_val ds) else int (digits_val ds)),
                           dropWhile is_digit rest))
          else Some (0, s))"

definition lex_fraction :: "jsstring \<Rightarrow> (jsstring \<times> jsstring) option" where
  "lex_fraction s =
     (case s of
        [] \<Rightarrow> Some ([], s)
      | c # cs \<Rightarrow>
          if c = 0x2E then
            (let ds = takeWhile is_digit cs
             in if ds = [] then None else Some (ds, dropWhile is_digit cs))
          else Some ([], s))"

definition lex_number :: "jsstring \<Rightarrow> (token \<times> jsstring) option" where
  "lex_number s =
     (let neg = (case s of [] \<Rightarrow> False | c # cs \<Rightarrow> c = 0x2D);
          s1 = (if neg then tl s else s);
          ip = takeWhile is_digit s1
      in if ip = [] \<or> (hd ip = 0x30 \<and> length ip \<noteq> 1) then None
         else
           (case lex_fraction (dropWhile is_digit s1) of
              None \<Rightarrow> None
            | Some (fp, s2) \<Rightarrow>
                (case lex_exponent s2 of
                   None \<Rightarrow> None
                 | Some (ex, s3) \<Rightarrow>
                     Some (TNumber neg (digits_val (ip @ fp)) (ex - int (length fp)), s3))))"

lemma lex_string_shorter: "lex_string s = Some (v, r) \<Longrightarrow> length r < length s"
proof (induction s arbitrary: v r rule: lex_string.induct)
  case 1
  then show ?case by simp
next
  case (2 c cs)
  show ?case
  proof (cases "c = 0x22")
    case True
    with "2.prems" show ?thesis by simp
  next
    case quote: False
    show ?thesis
    proof (cases "c = 0x5C")
      case False
      with quote "2.prems" obtain v' where "lex_string cs = Some (v', r)"
        by (auto split: if_splits)
      with "2.IH"(3) [OF quote False] "2.prems" quote False show ?thesis
        by (force split: if_splits)
    next
      case True
      with quote "2.prems" obtain e es where cs: "cs = e # es"
        by (cases cs) auto
      show ?thesis
      proof (cases "e = 0x75")
        case u: True
        with quote True cs "2.prems" obtain u' v' where
          h: "hex4 (take 4 es) = Some u'" and l: "lex_string (drop 4 es) = Some (v', r)"
          by (auto split: option.splits)
        from "2.IH"(1) [OF quote True cs u h l] cs show ?thesis by simp
      next
        case nu: False
        with quote True cs "2.prems" obtain x v' where
          h: "escape e = Some x" and l: "lex_string es = Some (v', r)"
          by (auto split: option.splits)
        from "2.IH"(2) [OF quote True cs nu h l] cs show ?thesis by simp
      qed
    qed
  qed
qed

lemma lex_fraction_shorter: "lex_fraction s = Some (fp, r) \<Longrightarrow> length r \<le> length s"
  by (auto simp: lex_fraction_def Let_def length_dropWhile_le le_SucI
      split: list.splits if_splits)

lemma lex_exponent_shorter: "lex_exponent s = Some (ex, r) \<Longrightarrow> length r \<le> length s"
proof (cases s)
  case Nil
  assume "lex_exponent s = Some (ex, r)"
  with Nil show ?thesis by (simp add: lex_exponent_def)
next
  case (Cons c cs)
  assume a: "lex_exponent s = Some (ex, r)"
  have "length (dropWhile is_digit cs) \<le> length cs"
    and "length (dropWhile is_digit (tl cs)) \<le> length cs"
    using length_dropWhile_le [of is_digit cs] length_dropWhile_le [of is_digit "tl cs"]
    by simp_all
  with a Cons show ?thesis
    by (auto simp: lex_exponent_def Let_def split: if_splits)
qed

lemma lex_number_shorter:
  assumes "lex_number s = Some (t, r)"
  shows "length r < length s"
proof -
  define s1 where "s1 = (if (case s of [] \<Rightarrow> False | c # cs \<Rightarrow> c = 0x2D) then tl s else s)"
  from assms obtain fp s2 ex where
    ip: "takeWhile is_digit s1 \<noteq> []" and
    f: "lex_fraction (dropWhile is_digit s1) = Some (fp, s2)" and
    e: "lex_exponent s2 = Some (ex, r)"
    by (auto simp: lex_number_def Let_def s1_def split: if_splits option.splits)
  from ip have "length (dropWhile is_digit s1) < length s1"
    by (cases s1) (auto simp: le_imp_less_Suc length_dropWhile_le split: if_splits)
  moreover have "length s1 \<le> length s"
    by (simp add: s1_def)
  ultimately show ?thesis
    using lex_fraction_shorter [OF f] lex_exponent_shorter [OF e] by simp
qed

text \<open>The tokens of a text; \<open>None\<close> when a character fits no token.\<close>

function lex :: "jsstring \<Rightarrow> token list option" where
  "lex [] = Some []"
| "lex (c # cs) =
     (if json_space c then lex cs
      else if c = 0x7B then map_option (Cons LBrace) (lex cs)
      else if c = 0x7D then map_option (Cons RBrace) (lex cs)
      else if c = 0x5B then map_option (Cons LBracket) (lex cs)
      else if c = 0x5D then map_option (Cons RBracket) (lex cs)
      else if c = 0x3A then map_option (Cons Colon) (lex cs)
      else if c = 0x2C then map_option (Cons Comma) (lex cs)
      else if c = 0x22 then
        (case lex_string cs of
           None \<Rightarrow> None
         | Some (v, r) \<Rightarrow> map_option (Cons (TString v)) (lex r))
      else if c = 0x2D \<or> is_digit c then
        (case lex_number (c # cs) of
           None \<Rightarrow> None
         | Some (t, r) \<Rightarrow> map_option (Cons t) (lex r))
      else if prefix (str ''true'') (c # cs) then map_option (Cons TTrue) (lex (drop 3 cs))
      else if prefix (str ''false'') (c # cs) then map_option (Cons TFalse) (lex (drop 4 cs))
      else if prefix (str ''null'') (c # cs) then map_option (Cons TNull) (lex (drop 3 cs))
      else None)"
  by pat_completeness auto
termination
proof (relation "measure length")
  fix c cs x v r
  assume "lex_string cs = Some x" and "(v, r) = x"
  then show "(r, c # cs) \<in> measure length"
    using lex_string_shorter [of cs v r] by simp
next
  fix c cs x t r
  assume "lex_number (c # cs) = Some x" and "(t, r) = x"
  then show "(r, c # cs) \<in> measure length"
    using lex_number_shorter [of "c # cs" t r] by simp
qed simp_all

text \<open>
  The parser. A frame is an array or an object still open, with the elements or
  properties read so far and, for an object, the key whose value is awaited. A
  property written twice keeps its first place and its last value.
\<close>

datatype frame = InArray "json list" | InObject "(jsstring \<times> json) list" "jsstring option"

datatype expect =
    Value | ValueOrClose | KeyOrClose | Key | AColon | CommaOrClose | Done json

fun put :: "jsstring \<Rightarrow> json \<Rightarrow> (jsstring \<times> json) list \<Rightarrow> (jsstring \<times> json) list" where
  "put k v [] = [(k, v)]"
| "put k v ((k', v') # kvs) = (if k = k' then (k, v) # kvs else (k', v') # put k v kvs)"

text \<open>A finished value goes to the frame around it, or is the result.\<close>

fun deliver :: "json \<Rightarrow> frame list \<Rightarrow> (frame list \<times> expect) option" where
  "deliver v [] = Some ([], Done v)"
| "deliver v (InArray xs # fs) = Some (InArray (xs @ [v]) # fs, CommaOrClose)"
| "deliver v (InObject kvs (Some k) # fs) = Some (InObject (put k v kvs) None # fs, CommaOrClose)"
| "deliver v (InObject kvs None # fs) = None"

fun scalar :: "token \<Rightarrow> json option" where
  "scalar (TString s) = Some (JStr s)"
| "scalar (TNumber neg n e) = Some (JNum neg n e)"
| "scalar TTrue = Some (JBool True)"
| "scalar TFalse = Some (JBool False)"
| "scalar TNull = Some JNull"
| "scalar t = None"

definition open_value :: "frame list \<Rightarrow> token \<Rightarrow> (frame list \<times> expect) option" where
  "open_value fs t =
     (if t = LBracket then Some (InArray [] # fs, ValueOrClose)
      else if t = LBrace then Some (InObject [] None # fs, KeyOrClose)
      else (case scalar t of Some v \<Rightarrow> deliver v fs | None \<Rightarrow> None))"

definition close_array :: "frame list \<Rightarrow> (frame list \<times> expect) option" where
  "close_array fs = (case fs of InArray xs # fs' \<Rightarrow> deliver (JArr xs) fs' | _ \<Rightarrow> None)"

definition close_object :: "frame list \<Rightarrow> (frame list \<times> expect) option" where
  "close_object fs = (case fs of InObject kvs None # fs' \<Rightarrow> deliver (JObj kvs) fs' | _ \<Rightarrow> None)"

definition read_key :: "frame list \<Rightarrow> token \<Rightarrow> (frame list \<times> expect) option" where
  "read_key fs t =
     (case (fs, t) of
        (InObject kvs None # fs', TString k) \<Rightarrow> Some (InObject kvs (Some k) # fs', AColon)
      | _ \<Rightarrow> None)"

fun step :: "frame list \<times> expect \<Rightarrow> token \<Rightarrow> (frame list \<times> expect) option" where
  "step (fs, Value) t = open_value fs t"
| "step (fs, ValueOrClose) t = (if t = RBracket then close_array fs else open_value fs t)"
| "step (fs, KeyOrClose) t = (if t = RBrace then close_object fs else read_key fs t)"
| "step (fs, Key) t = read_key fs t"
| "step (fs, AColon) t = (if t = Colon then Some (fs, Value) else None)"
| "step (fs, CommaOrClose) t =
     (if t = Comma then
        (case fs of
           InArray xs # fs' \<Rightarrow> Some (fs, Value)
         | InObject kvs k # fs' \<Rightarrow> Some (fs, Key)
         | [] \<Rightarrow> None)
      else if t = RBracket then close_array fs
      else if t = RBrace then close_object fs
      else None)"
| "step (fs, Done v) t = None"

fun run :: "frame list \<times> expect \<Rightarrow> token list \<Rightarrow> (frame list \<times> expect) option" where
  "run st [] = Some st"
| "run st (t # ts) = (case step st t of None \<Rightarrow> None | Some st' \<Rightarrow> run st' ts)"

definition parse_tokens :: "token list \<Rightarrow> json option" where
  "parse_tokens ts =
     (case run ([], Value) ts of Some ([], Done v) \<Rightarrow> Some v | _ \<Rightarrow> None)"

text \<open>\<open>JSON.parse(text)\<close>: the value, or a SyntaxError.\<close>

definition JSON_parse :: "engine \<Rightarrow> jsstring \<Rightarrow> js_error + json" where
  "JSON_parse eng s =
     (case lex s of
        None \<Rightarrow> Inl (SyntaxError (message eng (BadJSON s)))
      | Some ts \<Rightarrow>
          (case parse_tokens ts of
             None \<Rightarrow> Inl (SyntaxError (message eng (BadJSON s)))
           | Some v \<Rightarrow> Inr v))"

subsection \<open>Conversion to a string\<close>

text \<open>
  \<open>String(v)\<close>, which \<open>JSON.parse\<close>, \<open>new Error\<close> and a template literal apply to
  their argument. An array joins the strings of its elements, \<open>null\<close> elements
  as the empty string. An object built by \<open>JSON.parse\<close> prints as
  \<open>[object Object]\<close>, unless an own property \<open>toString\<close> hides the inherited
  method: its value is no function, and neither \<open>valueOf\<close> yields a primitive.
  \<open>'' + v\<close>, by which React converts a key and an \<open>href\<close>, asks \<open>valueOf\<close> first
  and gives the same result on these values.
\<close>

fun to_string :: "engine \<Rightarrow> json \<Rightarrow> js_error + jsstring"
  and join :: "engine \<Rightarrow> json list \<Rightarrow> js_error + jsstring" where
  "to_string eng JNull = Inr (str ''null'')"
| "to_string eng (JBool b) = Inr (if b then str ''true'' else str ''false'')"
| "to_string eng (JNum neg n e) = Inr (number_string eng neg n e)"
| "to_string eng (JStr s) = Inr s"
| "to_string eng (JArr xs) = join eng xs"
| "to_string eng (JObj kvs) =
     (if map_of kvs (str ''toString'') = None then Inr (str ''[object Object]'')
      else Inl (TypeError (message eng NotPrimitive)))"
| "join eng [] = Inr []"
| "join eng (x # xs) =
     bind_err (if x = JNull then Inr [] else to_string eng x) (\<lambda>a.
       if xs = [] then Inr a
       else bind_err (join eng xs) (\<lambda>b. Inr (a @ str '','' @ b)))"

definition to_string_opt :: "engine \<Rightarrow> json option \<Rightarrow> js_error + jsstring" where
  "to_string_opt eng v =
     (case v of None \<Rightarrow> Inr (str ''undefined'') | Some j \<Rightarrow> to_string eng j)"

text \<open>A non-negative integer in decimal, as a template literal prints it.\<close>

fun digits_of :: "nat \<Rightarrow> jsstring" where
  "digits_of n =
     (if n < 10 then [word_of_nat (48 + n)]
      else digits_of (n div 10) @ [word_of_nat (48 + n mod 10)])"

declare digits_of.simps [simp del]

section \<open>The content renderer: \<open>tryParsePubMed\<close> and \<open>MessageContent\<close>\<close>

text \<open>
  \<open>tryParsePubMed(content)\<close> of \<open>App.jsx\<close>. The result is \<open>null\<close> or the parsed
  payload; \<open>Inl\<close> would be an exception leaving the function. The \<open>try\<close> block
  encloses \<open>JSON.parse\<close> and the test of \<open>results\<close>; its \<open>catch\<close> returns \<open>null\<close>.
\<close>

definition tryParsePubMed :: "engine \<Rightarrow> json option \<Rightarrow> js_error + json" where
  "tryParsePubMed eng content =
     (if typeof content \<noteq> ''string'' then Inr JNull
      else
        bind_err (trim_method eng content) (\<lambda>str0.
        bind_err (case match_re fence_re str0 of
                    None \<Rightarrow> Inr str0
                  | Some codeBlock \<Rightarrow> trim_method eng (index codeBlock 1)) (\<lambda>str1.
        case match_re brace_re str1 of
          None \<Rightarrow> Inr JNull
        | Some jsonMatch \<Rightarrow>
            (case bind_err (to_string_opt eng (index jsonMatch 0)) (\<lambda>text.
                  bind_err (JSON_parse eng text) (\<lambda>data.
                  if truthy (opt_get data Presults) then
                    bind_err (get eng data Presults) (\<lambda>results.
                    if is_array results then Inr data else Inr JNull)
                  else Inr JNull)) of
               Inl e \<Rightarrow> Inr JNull
             | Inr v \<Rightarrow> Inr v))))"

text \<open>
  What \<open>MessageContent\<close> returns: the plain text element with the content as
  its child, or the result set. \<open>a && element\<close> is the element when \<open>a\<close> is
  truthy and the falsy value itself otherwise.
\<close>

datatype child = Hidden "json option" | Shown json

definition guard :: "json option \<Rightarrow> child" where
  "guard a = (case a of Some v \<Rightarrow> if truthy a then Shown v else Hidden a | None \<Rightarrow> Hidden a)"

record result_card =
  key :: jsstring
  title_href :: "json option"
  title :: json
  authors :: child
  citation :: child
  snippet :: child
  link_href :: "json option"

datatype view =
    MessageText "json option"
  | PubmedResults "json option" child "result_card list"

text \<open>
  The callback of \<open>pubmed.results.map\<close>: the card of entry \<open>r\<close> at position \<open>i\<close>.
  The file imports no \<open>React\<close>, so its JSX is a call of \<open>jsx\<close>, which takes the
  key as the argument after the properties: the properties of the children are
  read first, then \<open>r.pmid\<close>, and \<open>jsx\<close> converts the key to a string. On a
  \<open>null\<close> entry the first read throws.
\<close>

definition pubmed_card :: "engine \<Rightarrow> json \<Rightarrow> nat \<Rightarrow> js_error + result_card" where
  "pubmed_card eng r i =
     bind_err (get eng r Purl) (\<lambda>url1.
     bind_err (get eng r Ptitle) (\<lambda>ttl.
     bind_err (get eng r Pauthors) (\<lambda>au.
     bind_err (get eng r Pjournal_citation) (\<lambda>jc.
     bind_err (get eng r Psnippet) (\<lambda>sn.
     bind_err (get eng r Purl) (\<lambda>url2.
     bind_err (get eng r Ppmid) (\<lambda>pmid.
     bind_err (to_string eng (or_else pmid (JNum False i 0))) (\<lambda>k.
     Inr \<lparr> key = k,
           title_href = url1,
           title = or_else ttl (JStr (str ''Untitled'')),
           authors = guard au,
           citation = guard jc,
           snippet = guard sn,
           link_href = url2 \<rparr>))))))))"

fun pubmed_cards :: "engine \<Rightarrow> json list \<Rightarrow> nat \<Rightarrow> js_error + result_card list" where
  "pubmed_cards eng [] i = Inr []"
| "pubmed_cards eng (r # rs) i =
     bind_err (pubmed_card eng r i) (\<lambda>c.
     bind_err (pubmed_cards eng rs (Suc i)) (\<lambda>cs. Inr (c # cs)))"

definition MessageContent :: "engine \<Rightarrow> json option \<Rightarrow> json option \<Rightarrow> js_error + view" where
  "MessageContent eng content role =
     bind_err (tryParsePubMed eng content) (\<lambda>pubmed.
     if truthy (Some pubmed) then
       bind_err (get eng pubmed Ptotal_results) (\<lambda>total.
       bind_err (get eng pubmed Pquery) (\<lambda>query.
       bind_err (get eng pubmed Presults) (\<lambda>results.
       case results of
         Some (JArr rs) \<Rightarrow>
           bind_err (pubmed_cards eng rs 0) (\<lambda>cs. Inr (PubmedResults total (guard query) cs))
       | _ \<Rightarrow> Inl (TypeError (message eng (NotAFunction ''map''))))))
     else Inr (MessageText content))"

subsection \<open>What React draws\<close>

text \<open>
  React draws the element \<open>MessageContent\<close> returns. A value in child position
  becomes text nodes: a string or a number its text, \<open>null\<close>, \<open>undefined\<close> and
  the booleans nothing, an array the nodes of its elements in turn; an object is
  refused with an error. A text node without a character shows nothing and is
  left out.
\<close>

datatype html = TextNode jsstring | Element string "(string \<times> jsstring) list" "html list"

fun child_nodes :: "engine \<Rightarrow> json \<Rightarrow> js_error + html list"
  and children_nodes :: "engine \<Rightarrow> json list \<Rightarrow> js_error + html list" where
  "child_nodes eng JNull = Inr []"
| "child_nodes eng (JBool b) = Inr []"
| "child_nodes eng (JNum neg n e) = Inr [TextNode (number_string eng neg n e)]"
| "child_nodes eng (JStr s) = Inr (if s = [] then [] else [TextNode s])"
| "child_nodes eng (JArr xs) = children_nodes eng xs"
| "child_nodes eng (JObj kvs) = Inl (GenericError (message eng ObjectAsChild))"
| "children_nodes eng [] = Inr []"
| "children_nodes eng (x # xs) =
     bind_err (child_nodes eng x) (\<lambda>a.
     bind_err (children_nodes eng xs) (\<lambda>b. Inr (a @ b)))"

definition child_nodes_opt :: "engine \<Rightarrow> json option \<Rightarrow> js_error + html list" where
  "child_nodes_opt eng v = (case v of None \<Rightarrow> Inr [] | Some j \<Rightarrow> child_nodes eng j)"

text \<open>
  The attribute \<open>href\<close> of a link: none for \<open>null\<close>, \<open>undefined\<close> and the
  booleans; otherwise React DOM converts the value to a string and writes it as
  a URL.
\<close>

definition href :: "engine \<Rightarrow> json option \<Rightarrow> js_error + (string \<times> jsstring) list" where
  "href eng v =
     (case v of
        None \<Rightarrow> Inr []
      | Some JNull \<Rightarrow> Inr []
      | Some (JBool b) \<Rightarrow> Inr []
      | Some u \<Rightarrow> bind_err (to_string eng u) (\<lambda>s. Inr [(''href'', url_attribute eng s)]))"

text \<open>
  \<open>a && <p className=...>{a}</p>\<close> in child position: the paragraph, or what
  the falsy value itself shows, which is \<open>0\<close> for the number zero.
\<close>

definition mount_line :: "engine \<Rightarrow> string \<Rightarrow> child \<Rightarrow> js_error + html list" where
  "mount_line eng cls c =
     (case c of
        Hidden v \<Rightarrow> child_nodes_opt eng v
      | Shown v \<Rightarrow> bind_err (child_nodes eng v) (\<lambda>t. Inr [Element ''p'' [(''class'', str cls)] t]))"

text \<open>The \<open>article\<close> of a card. The last character of the link text is the arrow U+2192.\<close>

definition mount_card :: "engine \<Rightarrow> result_card \<Rightarrow> js_error + html" where
  "mount_card eng c =
     bind_err (href eng (title_href c)) (\<lambda>h1.
     bind_err (child_nodes eng (title c)) (\<lambda>t.
     bind_err (mount_line eng ''pubmed-card-meta'' (authors c)) (\<lambda>a.
     bind_err (mount_line eng ''pubmed-card-citation'' (citation c)) (\<lambda>j.
     bind_err (mount_line eng ''pubmed-card-snippet'' (snippet c)) (\<lambda>s.
     bind_err (href eng (link_href c)) (\<lambda>h2.
     Inr (Element ''article'' [(''class'', str ''pubmed-card'')]
           (Element ''h3'' [(''class'', str ''pubmed-card-title'')]
              [Element ''a''
                 (h1 @ [(''target'', str ''_blank''), (''rel'', str ''noopener noreferrer'')]) t]
            # a @ j @ s @
            [Element ''a''
               (h2 @ [(''target'', str ''_blank''), (''rel'', str ''noopener noreferrer''),
                      (''class'', str ''pubmed-card-link'')])
               [TextNode (str ''View on PubMed '' @ [0x2192])]]))))))))"

fun mount_cards :: "engine \<Rightarrow> result_card list \<Rightarrow> js_error + html list" where
  "mount_cards eng [] = Inr []"
| "mount_cards eng (c # cs) =
     bind_err (mount_card eng c) (\<lambda>d.
     bind_err (mount_cards eng cs) (\<lambda>ds. Inr (d # ds)))"

definition mount :: "engine \<Rightarrow> view \<Rightarrow> js_error + html" where
  "mount eng v =
     (case v of
        MessageText content \<Rightarrow>
          bind_err (child_nodes_opt eng content) (\<lambda>t.
          Inr (Element ''div'' [(''class'', str ''message-text'')] t))
      | PubmedResults count query cards \<Rightarrow>
          bind_err (child_nodes_opt eng count) (\<lambda>n.
          bind_err (case query of
                      Hidden v \<Rightarrow> child_nodes_opt eng v
                    | Shown v \<Rightarrow>
                        bind_err (child_nodes eng v) (\<lambda>t.
                        Inr [Element ''span'' [] (TextNode (str ''Query: '') # t)])) (\<lambda>q.
          bind_err (mount_cards eng cards) (\<lambda>ds.
          Inr (Element ''div'' [(''class'', str ''pubmed-results'')]
                [Element ''div'' [(''class'', str ''pubmed-meta'')]
                   (Element ''span'' [] [Element ''strong'' [] n, TextNode (str '' results'')] # q),
                 Element ''div'' [(''class'', str ''pubmed-cards'')] ds])))))"

text \<open>A message on the page: the element of \<open>MessageContent\<close>, drawn.\<close>

definition render :: "engine \<Rightarrow> json option \<Rightarrow> json option \<Rightarrow> js_error + html" where
  "render eng content role = bind_err (MessageContent eng content role) (mount eng)"

section \<open>The conversation controller: \<open>send\<close>\<close>

text \<open>
  The view state of \<open>App\<close>, in both clients: the four \<open>useState\<close> cells. \<open>messages\<close>
  holds whatever \<open>setMessages\<close> was given, so it is a value, not a list.
\<close>

record state =
  messages :: json
  input :: jsstring
  loading :: bool
  error :: jsstring

text \<open>
  The call of \<open>fetch\<close>. \<open>body\<close> is the value handed to \<open>JSON.stringify\<close>; the text
  on the wire is its serialisation.
\<close>

record request =
  path :: jsstring
  http_method :: jsstring
  headers :: "(jsstring \<times> jsstring) list"
  body :: json

text \<open>
  What the network answers: the promise of \<open>fetch\<close> rejects, or resolves to a
  response with a status and a body text. \<open>resp.ok\<close> is a status from 200 to 299.
\<close>

datatype fetch_result = Rejected js_error | Response nat jsstring

definition ok :: "nat \<Rightarrow> bool" where
  "ok status = (200 \<le> status \<and> status \<le> 299)"

text \<open>
  Both clients draw the list with \<open>messages.map\<close>, reading \<open>m.role\<close> and
  \<open>m.content\<close> of every entry. When this throws, React unmounts the component:
  \<open>send\<close> can only be called in a state the view was drawn from.
\<close>

fun message_rows :: "engine \<Rightarrow> json list \<Rightarrow> js_error + (json option \<times> json option) list" where
  "message_rows eng [] = Inr []"
| "message_rows eng (m # ms) =
     bind_err (get eng m Prole) (\<lambda>r.
     bind_err (get eng m Pcontent) (\<lambda>c.
     bind_err (message_rows eng ms) (\<lambda>rows. Inr ((r, c) # rows))))"

definition messages_view :: "engine \<Rightarrow> json \<Rightarrow> js_error + (json option \<times> json option) list" where
  "messages_view eng v =
     (case v of
        JArr ms \<Rightarrow> message_rows eng ms
      | JNull \<Rightarrow> Inl (TypeError (message eng (ReadOfNull ''map'')))
      | _ \<Rightarrow> Inl (TypeError (message eng (NotAFunction ''map''))))"

text \<open>
  \<open>[...messages, x]\<close>: an array spreads to its elements, a string to its code
  points (a surrogate pair is one of them), and nothing else built by
  \<open>JSON.parse\<close> is iterable.
\<close>

definition high_surrogate :: "code_unit \<Rightarrow> bool" where
  "high_surrogate c = (0xD800 \<le> c \<and> c \<le> 0xDBFF)"

definition low_surrogate :: "code_unit \<Rightarrow> bool" where
  "low_surrogate c = (0xDC00 \<le> c \<and> c \<le> 0xDFFF)"

fun code_points :: "jsstring \<Rightarrow> jsstring list" where
  "code_points (a # b # cs) =
     (if high_surrogate a \<and> low_surrogate b then [a, b] # code_points cs
      else [a] # code_points (b # cs))"
| "code_points [a] = [[a]]"
| "code_points [] = []"

definition spread :: "engine \<Rightarrow> json \<Rightarrow> js_error + json list" where
  "spread eng v =
     (case v of
        JArr xs \<Rightarrow> Inr xs
      | JStr s \<Rightarrow> Inr (map JStr (code_points s))
      | _ \<Rightarrow> Inl (TypeError (message eng NotIterable)))"

text \<open>\<open>prev.slice(0, -1)\<close>.\<close>

definition slice_init :: "engine \<Rightarrow> json \<Rightarrow> js_error + json" where
  "slice_init eng prev =
     (case prev of
        JArr xs \<Rightarrow> Inr (JArr (butlast xs))
      | JStr s \<Rightarrow> Inr (JStr (butlast s))
      | JNull \<Rightarrow> Inl (TypeError (message eng (ReadOfNull ''slice'')))
      | _ \<Rightarrow> Inl (TypeError (message eng (NotAFunction ''slice''))))"

text \<open>The message \<open>{ role: 'user', content: text }\<close>.\<close>

definition user_message :: "jsstring \<Rightarrow> json" where
  "user_message text = JObj [(str ''role'', JStr (str ''user'')), (str ''content'', JStr text)]"

text \<open>
  \<open>nextMessages.filter((m) => m.role === 'user' || m.role === 'assistant')\<close>.
\<close>

definition keep_role :: "engine \<Rightarrow> json \<Rightarrow> js_error + bool" where
  "keep_role eng m =
     bind_err (get eng m Prole) (\<lambda>r.
     if r = Some (JStr (str ''user'')) then Inr True
     else bind_err (get eng m Prole) (\<lambda>r'. Inr (r' = Some (JStr (str ''assistant'')))))"

fun filter_roles :: "engine \<Rightarrow> json list \<Rightarrow> js_error + json list" where
  "filter_roles eng [] = Inr []"
| "filter_roles eng (m # ms) =
     bind_err (keep_role eng m) (\<lambda>k.
     bind_err (filter_roles eng ms) (\<lambda>kept. Inr (if k then m # kept else kept)))"

definition chat_request :: "json list \<Rightarrow> request" where
  "chat_request kept =
     \<lparr> path = str ''/api/chat'',
       http_method = str ''POST'',
       headers = [(str ''Content-Type'', str ''application/json'')],
       body = JObj [(str ''messages'', JArr kept)] \<rparr>"

text \<open>
  The rest of the \<open>try\<close> block, once \<open>fetch\<close> has settled: \<open>Inr v\<close> when it reaches
  \<open>setMessages(v)\<close>, \<open>Inl e\<close> when \<open>e\<close> is thrown. \<open>new Error(x)\<close> turns \<open>x\<close> into a
  string.
\<close>

definition http_error :: "engine \<Rightarrow> json \<Rightarrow> nat \<Rightarrow> js_error + json" where
  "http_error eng data status =
     bind_err (to_string eng
                 (or_else (opt_get data Pmessage)
                   (or_else (opt_get data Perror) (JStr (str ''HTTP '' @ digits_of status)))))
       (\<lambda>m. Inl (GenericError m))"

definition after_fetch :: "engine \<Rightarrow> json list \<Rightarrow> fetch_result \<Rightarrow> js_error + json" where
  "after_fetch eng nextMessages res =
     (case res of
        Rejected e \<Rightarrow> Inl e
      | Response status text \<Rightarrow>
          bind_err (JSON_parse eng text) (\<lambda>data.
          if \<not> ok status then http_error eng data status
          else bind_err (get eng data Pmessages) (\<lambda>ms. Inr (or_else ms (JArr nextMessages)))))"

text \<open>
  \<open>String(e?.message || e)\<close> for a caught error: its message, or, when the message
  is empty, what \<open>Error.prototype.toString\<close> gives for an empty message, the name.
\<close>

definition catch_text :: "js_error \<Rightarrow> jsstring" where
  "catch_text e = (if err_message e \<noteq> [] then err_message e else err_name e)"

text \<open>
  How a call of \<open>send\<close> stands when its synchronous part is over: it returned at
  the guard; it threw outside the \<open>try\<close> block; it ran through \<open>catch\<close> and
  \<open>finally\<close> without a request; or it waits for \<open>fetch\<close>, with the state at that
  moment, \<open>nextMessages\<close> and the request issued.
\<close>

datatype pending =
    Ignored
  | Threw js_error state
  | Finished state "js_error option"
  | Awaiting state "json list" request

text \<open>
  \<open>catch\<close> and \<open>finally\<close> of \<open>App.jsx\<close>: the error text, the functional update
  \<open>setMessages((prev) => prev.slice(0, -1))\<close>, and the loading flag. The second
  component is an error thrown by the update.
\<close>

definition on_failure :: "engine \<Rightarrow> js_error \<Rightarrow> state \<Rightarrow> state \<times> js_error option" where
  "on_failure eng e st =
     (let st1 = st\<lparr>error := catch_text e\<rparr>
      in case slice_init eng (messages st1) of
           Inr v \<Rightarrow> (st1\<lparr>messages := v, loading := False\<rparr>, None)
         | Inl e' \<Rightarrow> (st1\<lparr>loading := False\<rparr>, Some e'))"

text \<open>
  \<open>(typeof userText === 'string' ? userText : input.trim()).trim()\<close>: only a
  string has the type \<open>string\<close>.
\<close>

definition effective_text :: "json option \<Rightarrow> state \<Rightarrow> jsstring" where
  "effective_text userText st =
     trim (case userText of Some (JStr s) \<Rightarrow> s | _ \<Rightarrow> trim (input st))"

text \<open>\<open>send(userText)\<close> of \<open>App.jsx\<close> up to \<open>await fetch\<close>.\<close>

definition send_begin :: "engine \<Rightarrow> json option \<Rightarrow> state \<Rightarrow> pending" where
  "send_begin eng userText st =
     (let text = effective_text userText st
      in if text = [] \<or> loading st then Ignored
         else
           (let st1 = st\<lparr>error := [], loading := True\<rparr>
            in case spread eng (messages st) of
                 Inl e \<Rightarrow> Threw e st1
               | Inr ms \<Rightarrow>
                   (let nextMessages = ms @ [user_message text];
                        st2 = st1\<lparr>messages := JArr nextMessages, input := []\<rparr>
                    in case filter_roles eng nextMessages of
                         Inl e \<Rightarrow> (case on_failure eng e st2 of (st3, u) \<Rightarrow> Finished st3 u)
                       | Inr kept \<Rightarrow> Awaiting st2 nextMessages (chat_request kept))))"

text \<open>The same call from the point where \<open>fetch\<close> has settled, in the state of then.\<close>

definition send_resume ::
  "engine \<Rightarrow> json list \<Rightarrow> fetch_result \<Rightarrow> state \<Rightarrow> state \<times> js_error option" where
  "send_resume eng nextMessages res st =
     (case after_fetch eng nextMessages res of
        Inr v \<Rightarrow> (st\<lparr>messages := v, loading := False\<rparr>, None)
      | Inl e \<Rightarrow> on_failure eng e st)"

text \<open>
  A whole call, with nothing else happening while it waits: the state
  afterwards, the requests issued, and the error of a rejected promise if any.
\<close>

record outcome =
  final :: state
  sent :: "request list"
  unhandled :: "js_error option"

definition send :: "engine \<Rightarrow> (request \<Rightarrow> fetch_result) \<Rightarrow> json option \<Rightarrow> state \<Rightarrow> outcome" where
  "send eng fetch userText st =
     (case send_begin eng userText st of
        Ignored \<Rightarrow> \<lparr> final = st, sent = [], unhandled = None \<rparr>
      | Threw e st1 \<Rightarrow> \<lparr> final = st1, sent = [], unhandled = Some e \<rparr>
      | Finished st3 u \<Rightarrow> \<lparr> final = st3, sent = [], unhandled = u \<rparr>
      | Awaiting st2 nextMessages req \<Rightarrow>
          (case send_resume eng nextMessages (fetch req) st2 of
             (st3, u) \<Rightarrow> \<lparr> final = st3, sent = [req], unhandled = u \<rparr>))"

subsection \<open>The second client\<close>

text \<open>
  \<open>send()\<close> of the other \<open>App\<close> (\<open>src/unnamed/part_000\<close>): it reads the input field
  only, and its \<open>catch\<close> sets the error text and nothing else.
\<close>

definition on_failure_part_000 :: "js_error \<Rightarrow> state \<Rightarrow> state" where
  "on_failure_part_000 e st = st\<lparr>error := catch_text e, loading := False\<rparr>"

definition send_begin_part_000 :: "engine \<Rightarrow> state \<Rightarrow> pending" where
  "send_begin_part_000 eng st =
     (let text = trim (input st)
      in if text = [] \<or> loading st then Ignored
         else
           (let st1 = st\<lparr>error := [], loading := True\<rparr>
            in case spread eng (messages st) of
                 Inl e \<Rightarrow> Threw e st1
               | Inr ms \<Rightarrow>
                   (let nextMessages = ms @ [user_message text];
                        st2 = st1\<lparr>messages := JArr nextMessages, input := []\<rparr>
                    in case filter_roles eng nextMessages of
                         Inl e \<Rightarrow> Finished (on_failure_part_000 e st2) None
                       | Inr kept \<Rightarrow> Awaiting st2 nextMessages (chat_request kept))))"

definition send_resume_part_000 ::
  "engine \<Rightarrow> json list \<Rightarrow> fetch_result \<Rightarrow> state \<Rightarrow> state" where
  "send_resume_part_000 eng nextMessages res st =
     (case after_fetch eng nextMessages res of
        Inr v \<Rightarrow> st\<lparr>messages := v, loading := False\<rparr>
      | Inl e \<Rightarrow> on_failure_part_000 e st)"

definition send_part_000 :: "engine \<Rightarrow> (request \<Rightarrow> fetch_result) \<Rightarrow> state \<Rightarrow> outcome" where
  "send_part_000 eng fetch st =
     (case send_begin_part_000 eng st of
        Ignored \<Rightarrow> \<lparr> final = st, sent = [], unhandled = None \<rparr>
      | Threw e st1 \<Rightarrow> \<lparr> final = st1, sent = [], unhandled = Some e \<rparr>
      | Finished st3 u \<Rightarrow> \<lparr> final = st3, sent = [], unhandled = u \<rparr>
      | Awaiting st2 nextMessages req \<Rightarrow>
          \<lparr> final = send_resume_part_000 eng nextMessages (fetch req) st2,
            sent = [req], unhandled = None \<rparr>)"

subsection \<open>Initial states\<close>

text \<open>The initial values of the four \<open>useState\<close> cells, in \<open>App.jsx\<close> and in the second client.\<close>

definition initial_state :: state where
  "initial_state = \<lparr> messages = JArr [], input = [], loading = False, error = [] \<rparr>"

definition initial_state_part_000 :: state where
  "initial_state_part_000 =
     \<lparr> messages = JArr [JObj [(str ''role'', JStr (str ''assistant'')),
                              (str ''content'', JStr (str
         ''Hi! Ask me anything. If you ask for PubMed results, I will return JSON.''))]],
       input = [], loading = False, error = [] \<rparr>"

section \<open>The decision procedure of the specification\<close>

text \<open>
  The specification describes \<open>tryParsePubMed\<close> without regular expressions. These
  definitions follow its words; the theorems below compare them with the code.

  The brace-delimited substring: from the first \<open>{\<close> of the text to the last \<open>}\<close>
  after it.
\<close>

definition through_last :: "code_unit \<Rightarrow> jsstring \<Rightarrow> jsstring" where
  "through_last x s = rev (dropWhile (\<lambda>c. c \<noteq> x) (rev s))"

definition brace_span :: "jsstring \<Rightarrow> jsstring option" where
  "brace_span s =
     (let t = dropWhile (\<lambda>c. c \<noteq> 0x7B) s
      in if 0x7D \<in> set t then Some (through_last 0x7D t) else None)"

text \<open>
  The first fenced block: \<open>find_fence\<close> splits a text at its first fence into what
  stands before and after it; the interior of the first block lies between the
  first fence and the next one.
\<close>

fun find_fence :: "jsstring \<Rightarrow> (jsstring \<times> jsstring) option" where
  "find_fence [] = None"
| "find_fence (c # cs) =
     (if prefix fence (c # cs) then Some ([], drop 2 cs)
      else map_option (apfst (Cons c)) (find_fence cs))"

definition fenced_interior :: "jsstring \<Rightarrow> jsstring option" where
  "fenced_interior s =
     (case find_fence s of
        None \<Rightarrow> None
      | Some (before, rest) \<Rightarrow> map_option fst (find_fence rest))"

text \<open>
  The payload a substring stands for: \<open>null\<close> unless it parses to a value whose
  \<open>results\<close> is an array.
\<close>

definition accept :: "engine \<Rightarrow> jsstring \<Rightarrow> json" where
  "accept eng sub =
     (case JSON_parse eng sub of
        Inl e \<Rightarrow> JNull
      | Inr payload \<Rightarrow>
          (case own payload Presults of Some (JArr rs) \<Rightarrow> payload | _ \<Rightarrow> JNull))"

definition spec_tryParsePubMed :: "engine \<Rightarrow> jsstring \<Rightarrow> json" where
  "spec_tryParsePubMed eng content =
     (let text = trim content;
          block = (case fenced_interior text of Some inner \<Rightarrow> inner | None \<Rightarrow> text)
      in case brace_span block of
           None \<Rightarrow> JNull
         | Some sub \<Rightarrow> accept eng sub)"

text \<open>
  The substring the procedure selects in a content: in the trimmed text, or in
  the interior of its first fenced block, from the first \<open>{\<close> to the last \<open>}\<close>.
\<close>

definition candidate :: "jsstring \<Rightarrow> jsstring option" where
  "candidate content =
     brace_span (case fenced_interior (trim content) of
                   Some inner \<Rightarrow> inner
                 | None \<Rightarrow> trim content)"

text \<open>
  The card of a result entry, as the specification lists it: keyed by \<open>pmid\<close> or
  else by position, the title or else \<open>Untitled\<close>, both links to \<open>url\<close>, and the
  optional lines.
\<close>

definition entry_card :: "engine \<Rightarrow> json \<Rightarrow> nat \<Rightarrow> result_card \<Rightarrow> bool" where
  "entry_card eng r i c =
     (to_string eng (or_else (own r Ppmid) (JNum False i 0)) = Inr (key c) \<and>
      title_href c = own r Purl \<and>
      title c = or_else (own r Ptitle) (JStr (str ''Untitled'')) \<and>
      authors c = guard (own r Pauthors) \<and>
      citation c = guard (own r Pjournal_citation) \<and>
      snippet c = guard (own r Psnippet) \<and>
      link_href c = own r Purl)"

text \<open>
  The values that can be converted to a string, and those that can be shown:
  an object cannot be converted when a property \<open>toString\<close> of its own hides the
  method, and cannot be shown at all.
\<close>

fun printable :: "json \<Rightarrow> bool" where
  "printable (JObj kvs) = (map_of kvs (str ''toString'') = None)"
| "printable (JArr xs) = list_all printable xs"
| "printable v = True"

fun plain :: "json \<Rightarrow> bool" where
  "plain (JObj kvs) = False"
| "plain (JArr xs) = list_all plain xs"
| "plain v = True"

definition linkable :: "json option \<Rightarrow> bool" where
  "linkable v = (case v of None \<Rightarrow> True | Some j \<Rightarrow> printable j)"

definition drawable :: "json option \<Rightarrow> bool" where
  "drawable v = (case v of None \<Rightarrow> True | Some j \<Rightarrow> plain j)"

text \<open>
  An entry that can be given a key, and a payload that can be drawn: every entry
  is an object or another value that is not \<open>null\<close>, its \<open>pmid\<close> and \<open>url\<close> can be
  converted to strings, and every field that is displayed can be shown.
\<close>

definition keyable :: "json \<Rightarrow> bool" where
  "keyable r = (r \<noteq> JNull \<and> linkable (own r Ppmid))"

definition entry_drawable :: "json \<Rightarrow> bool" where
  "entry_drawable r =
     (keyable r \<and> linkable (own r Purl) \<and> drawable (own r Ptitle) \<and>
      drawable (own r Pauthors) \<and> drawable (own r Pjournal_citation) \<and>
      drawable (own r Psnippet))"

definition renderable :: "json \<Rightarrow> bool" where
  "renderable payload =
     (drawable (own payload Ptotal_results) \<and> drawable (own payload Pquery) \<and>
      (case own payload Presults of
         Some (JArr rs) \<Rightarrow> list_all entry_drawable rs
       | _ \<Rightarrow> False))"

text \<open>The entries of the history that go into a request.\<close>

definition has_chat_role :: "json \<Rightarrow> bool" where
  "has_chat_role m =
     (own m Prole = Some (JStr (str ''user'')) \<or> own m Prole = Some (JStr (str ''assistant'')))"

text \<open>
  What the capturing group of the first regular expression holds of the interior
  of a block: the interior without the tag \<open>json\<close> and the whitespace after it.
\<close>

definition strip_tag :: "jsstring \<Rightarrow> jsstring" where
  "strip_tag s = dropWhile is_space (if prefix (str ''json'') s then drop 4 s else s)"

subsection \<open>An engine for the examples\<close>

text \<open>
  The theorems hold for every engine. The examples run on this one: the messages
  are worded as the engine V8 words them, a URL is written as it stands, and
  numbers are printed only when they are integers written without an exponent,
  which is all the examples contain.
\<close>

fun sample_message :: "fault \<Rightarrow> jsstring" where
  "sample_message (ReadOfNull p) = str (''Cannot read properties of null (reading '' @ p @ '')'')"
| "sample_message (NotAFunction p) = str (p @ '' is not a function'')"
| "sample_message NotIterable = str ''messages is not iterable''"
| "sample_message NotPrimitive = str ''Cannot convert object to primitive value''"
| "sample_message (BadJSON s) = str ''Unexpected token in JSON''"
| "sample_message ObjectAsChild = str ''Objects are not valid as a React child''"

definition sample_engine :: engine where
  "sample_engine =
     \<lparr> message = sample_message,
       number_string = (\<lambda>neg n e. (if neg \<and> n \<noteq> 0 then str ''-'' else []) @ digits_of n),
       url_attribute = (\<lambda>s. s) \<rparr>"

text \<open>
  A state for the examples: a history with an entry of the role \<open>system\<close>, a
  padded input, and an error left from before.
\<close>

definition example_history :: "json list" where
  "example_history =
     [JObj [(str ''role'', JStr (str ''system'')), (str ''content'', JStr (str ''be brief''))],
      JObj [(str ''role'', JStr (str ''assistant'')), (str ''content'', JStr (str ''Hello''))]]"

definition example_state :: state where
  "example_state =
     \<lparr> messages = JArr example_history, input = str '' hi '', loading = False,
       error = str ''old'' \<rparr>"

section \<open>Lemmas on the regular expressions\<close>

lemma through_last_Cons:
  "through_last x (c # cs) =
     (if x \<in> set cs then c # through_last x cs else if c = x then [c] else [])"
  by (auto simp: through_last_def dropWhile_append)

lemma length_grow: "length (grow c segs) = length segs"
  by (cases segs) simp_all

lemma rmatch_brace_tail:
  "rmatch [Greedy AnyChar, Lit [0x7D]] s =
     (if 0x7D \<in> set s then Some [butlast (through_last 0x7D s), [0x7D]] else None)"
proof (induction s)
  case Nil
  show ?case by simp
next
  case (Cons c cs)
  show ?case
  proof (cases "0x7D \<in> set cs")
    case True
    with Cons have "rmatch [Greedy AnyChar, Lit [0x7D]] cs = Some [butlast (through_last 0x7D cs), [0x7D]]"
      by simp
    moreover from True have "through_last 0x7D cs \<noteq> []"
      by (induction cs) (auto simp: through_last_Cons)
    ultimately show ?thesis using True by (simp add: through_last_Cons)
  next
    case False
    with Cons have "rmatch [Greedy AnyChar, Lit [0x7D]] cs = None" by simp
    with False show ?thesis by (simp add: through_last_Cons)
  qed
qed

lemma through_last_last: "x \<in> set s \<Longrightarrow> through_last x s = butlast (through_last x s) @ [x]"
  by (induction s) (auto simp: through_last_Cons)

lemma rmatch_brace:
  "rmatch brace_re s =
     (case s of
        [] \<Rightarrow> None
      | c # cs \<Rightarrow> if c = 0x7B \<and> 0x7D \<in> set cs
                 then Some [[0x7B], butlast (through_last 0x7D cs), [0x7D]] else None)"
  by (cases s) (simp_all add: brace_re_def rmatch_brace_tail)

lemma first_match_brace:
  "first_match brace_re s =
     (let t = dropWhile (\<lambda>c. c \<noteq> 0x7B) s
      in if 0x7D \<in> set t then Some [[0x7B], butlast (through_last 0x7D (tl t)), [0x7D]] else None)"
proof (induction s)
  case Nil
  show ?case by (simp add: rmatch_brace)
next
  case (Cons c cs)
  show ?case
  proof (cases "c = 0x7B")
    case True
    then show ?thesis
      using Cons by (auto simp: rmatch_brace Let_def dest: set_dropWhileD)
  next
    case False
    then show ?thesis using Cons by (simp add: rmatch_brace Let_def)
  qed
qed

lemma match_brace: "match_re brace_re s = map_option (\<lambda>j. [j]) (brace_span s)"
proof -
  let ?t = "dropWhile (\<lambda>c. c \<noteq> 0x7B) s"
  show ?thesis
  proof (cases "0x7D \<in> set ?t")
    case False
    then show ?thesis
      by (simp add: match_re_def first_match_brace brace_span_def Let_def)
  next
    case True
    then have "?t \<noteq> []" by (metis empty_iff empty_set)
    from hd_dropWhile [OF this] have "hd ?t = 0x7B" by simp
    with \<open>?t \<noteq> []\<close> obtain cs where t: "?t = 0x7B # cs"
      by (cases ?t) auto
    with True have in_cs: "0x7D \<in> set cs" by auto
    have "through_last 0x7D ?t = 0x7B # butlast (through_last 0x7D cs) @ [0x7D]"
      using t in_cs through_last_last [OF in_cs] by (simp add: through_last_Cons)
    moreover have fm: "first_match brace_re s = Some [[0x7B], butlast (through_last 0x7D cs), [0x7D]]"
      using True t by (simp add: first_match_brace Let_def)
    have "match_re brace_re s = Some [0x7B # butlast (through_last 0x7D cs) @ [0x7D]]"
      unfolding match_re_def fm by (simp add: brace_re_def)
    ultimately show ?thesis
      using True by (simp add: brace_span_def Let_def)
  qed
qed


lemma not_prefix_fence: "c \<noteq> 0x60 \<Longrightarrow> \<not> prefix fence (c # cs)"
  by (simp add: fence_def)

lemma space_not_backtick: "is_space c \<Longrightarrow> c \<noteq> 0x60"
  by (auto simp: is_space_def)

lemma find_fence_append:
  "0x60 \<notin> set w \<Longrightarrow> find_fence (w @ r) = map_option (apfst ((@) w)) (find_fence r)"
proof (induction w)
  case Nil
  show ?case by (cases "find_fence r") auto
next
  case (Cons c w)
  then show ?case
    by (cases "find_fence r") (auto simp: not_prefix_fence)
qed

lemma find_fence_split: "find_fence s = Some (a, b) \<Longrightarrow> s = a @ fence @ b"
proof (induction s arbitrary: a)
  case Nil
  then show ?case by simp
next
  case (Cons c cs)
  show ?case
  proof (cases "prefix fence (c # cs)")
    case True
    with Cons.prems have "a = []" and "b = drop 2 cs" by simp_all
    moreover from True have "c # cs = fence @ drop 3 (c # cs)"
      by (auto simp: prefix_def fence_def)
    ultimately show ?thesis by simp
  next
    case False
    with Cons.prems obtain a' where "find_fence cs = Some (a', b)" and "a = c # a'"
      by auto
    with Cons.IH show ?thesis by simp
  qed
qed

lemma find_fence_drop: "find_fence r = None \<Longrightarrow> find_fence (drop n r) = None"
proof (induction r arbitrary: n)
  case Nil
  show ?case by simp
next
  case (Cons c cs)
  then have "find_fence cs = None" by (simp split: if_splits)
  with Cons show ?case by (cases n) simp_all
qed

lemma rmatch_lazy_fence:
  "rmatch [Lazy AnyChar, Lit fence] s = map_option (\<lambda>(a, b). [a, fence]) (find_fence s)"
proof (induction s)
  case Nil
  show ?case by (simp add: fence_def)
next
  case (Cons c cs)
  show ?case
  proof (cases "prefix fence (c # cs)")
    case True
    then show ?thesis by simp
  next
    case False
    with Cons show ?thesis
      by (cases "find_fence cs") (auto simp: split_def)
  qed
qed

lemma rmatch_space_fence:
  "rmatch [Greedy Space, Cap (Lazy AnyChar), Lit fence] s =
     map_option (\<lambda>(a, b). [takeWhile is_space s, a, fence]) (find_fence (dropWhile is_space s))"
proof (induction s)
  case Nil
  show ?case by (simp add: fence_def)
next
  case (Cons c cs)
  show ?case
  proof (cases "is_space c")
    case False
    then show ?thesis
      by (cases "prefix fence (c # cs)"; cases "find_fence cs") (auto simp: rmatch_lazy_fence)
  next
    case True
    show ?thesis
    proof (cases "find_fence (dropWhile is_space cs)")
      case (Some p)
      with True Cons show ?thesis by (cases p) simp
    next
      case None
      have "0x60 \<notin> set (c # takeWhile is_space cs)"
        using True by (auto dest: set_takeWhileD space_not_backtick)
      from find_fence_append [OF this, of "dropWhile is_space cs"] None
      have "find_fence (c # cs) = None" by simp
      with True None Cons show ?thesis
        by (simp add: rmatch_lazy_fence del: find_fence.simps rmatch.simps(6,7))
    qed
  qed
qed

lemma dropWhile_space_inner:
  assumes "find_fence (dropWhile is_space r) = Some (a, b)"
  shows "dropWhile is_space (takeWhile is_space r @ a) = a"
proof -
  have "dropWhile is_space (takeWhile is_space r @ a) = dropWhile is_space a"
    by (rule dropWhile_append2) (auto dest: set_takeWhileD)
  also have "\<dots> = a"
  proof (cases a)
    case Nil
    then show ?thesis by simp
  next
    case (Cons x xs)
    from find_fence_split [OF assms] Cons have "hd (dropWhile is_space r) = x"
      and "dropWhile is_space r \<noteq> []" by auto
    with hd_dropWhile [of is_space r] have "\<not> is_space x" by auto
    with Cons show ?thesis by simp
  qed
  finally show ?thesis .
qed

lemma json_no_backtick: "0x60 \<notin> set (str ''json'')"
  by (simp add: str_def)

lemma tl_fence_re:
  "tl fence_re = [OptLit (str ''json''), Greedy Space, Cap (Lazy AnyChar), Lit fence]"
  by (simp add: fence_re_def)

lemma rmatch_OptLit_present:
  "rmatch (OptLit l # ns) (l @ s) =
     (case rmatch ns s of
        Some r \<Rightarrow> Some (l # r)
      | None \<Rightarrow> map_option (Cons []) (rmatch ns (l @ s)))"
  by (simp split: option.splits)

lemma rmatch_OptLit_absent:
  "\<not> prefix l s \<Longrightarrow> rmatch (OptLit l # ns) s = map_option (Cons []) (rmatch ns s)"
  by simp

lemma find_fence_skip_space:
  "find_fence r =
     map_option (apfst ((@) (takeWhile is_space r))) (find_fence (dropWhile is_space r))"
proof -
  have "0x60 \<notin> set (takeWhile is_space r)"
    by (auto dest: set_takeWhileD space_not_backtick)
  from find_fence_append [OF this, of "dropWhile is_space r"] show ?thesis by simp
qed

lemma rmatch_after_fence_None:
  assumes "find_fence r = None"
  shows "rmatch (tl fence_re) r = None"
proof -
  from assms find_fence_skip_space [of r]
  have plain: "rmatch [Greedy Space, Cap (Lazy AnyChar), Lit fence] r = None"
    by (simp add: rmatch_space_fence)
  show ?thesis
  proof (cases "prefix (str ''json'') r")
    case False
    with plain show ?thesis
      unfolding tl_fence_re by (simp add: rmatch_OptLit_absent del: rmatch.simps)
  next
    case True
    then obtain r1 where r: "r = str ''json'' @ r1" by (auto simp: prefix_def)
    with assms find_fence_append [OF json_no_backtick, of r1] have "find_fence r1 = None"
      by simp
    with find_fence_skip_space [of r1]
    have "rmatch [Greedy Space, Cap (Lazy AnyChar), Lit fence] r1 = None"
      by (simp add: rmatch_space_fence)
    with plain show ?thesis
      unfolding tl_fence_re r by (simp add: rmatch_OptLit_present del: rmatch.simps)
  qed
qed

lemma rmatch_after_fence_Some:
  assumes "find_fence r = Some (inner, after)"
  shows "\<exists>tag ws. rmatch (tl fence_re) r = Some [tag, ws, strip_tag inner, fence]"
proof (cases "prefix (str ''json'') r")
  case False
  from find_fence_skip_space [of r] assms
  obtain a where a: "find_fence (dropWhile is_space r) = Some (a, after)"
    and inner: "inner = takeWhile is_space r @ a"
    by (cases "find_fence (dropWhile is_space r)") auto
  from find_fence_split [OF assms] False have "\<not> prefix (str ''json'') inner"
    by (auto simp: prefix_def)
  with dropWhile_space_inner [OF a] inner have "strip_tag inner = a"
    by (simp add: strip_tag_def)
  with a have "rmatch [Greedy Space, Cap (Lazy AnyChar), Lit fence] r =
      Some [takeWhile is_space r, strip_tag inner, fence]"
    by (simp add: rmatch_space_fence)
  with False show ?thesis
    unfolding tl_fence_re by (simp add: rmatch_OptLit_absent del: rmatch.simps)
next
  case True
  then obtain r1 where r: "r = str ''json'' @ r1" by (auto simp: prefix_def)
  from assms r find_fence_append [OF json_no_backtick, of r1]
  obtain i1 where i1: "find_fence r1 = Some (i1, after)" and inner1: "inner = str ''json'' @ i1"
    by (cases "find_fence r1") auto
  from find_fence_skip_space [of r1] i1
  obtain a where a: "find_fence (dropWhile is_space r1) = Some (a, after)"
    and i1': "i1 = takeWhile is_space r1 @ a"
    by (cases "find_fence (dropWhile is_space r1)") auto
  have "strip_tag inner = dropWhile is_space (takeWhile is_space r1 @ a)"
    using inner1 i1' by (simp add: strip_tag_def str_def)
  with dropWhile_space_inner [OF a] have "strip_tag inner = a" by simp
  with a have "rmatch [Greedy Space, Cap (Lazy AnyChar), Lit fence] r1 =
      Some [takeWhile is_space r1, strip_tag inner, fence]"
    by (simp add: rmatch_space_fence)
  then show ?thesis
    unfolding tl_fence_re r by (simp add: rmatch_OptLit_present del: rmatch.simps)
qed

lemma rmatch_fence_re:
  "rmatch fence_re t =
     (if prefix fence t
      then map_option (Cons fence) (rmatch (tl fence_re) (drop (length fence) t)) else None)"
  by (simp add: fence_re_def del: rmatch.simps(3))

lemma drop_fence: "drop (length fence) (c # cs) = drop 2 cs"
  by (simp add: fence_def numeral_2_eq_2)

lemma find_fence_rest: "find_fence s = Some (b, r) \<Longrightarrow> r = drop (length b + 3) s"
  by (drule find_fence_split) (simp add: fence_def)

lemma first_match_fence:
  "case fenced_interior t of
     None \<Rightarrow> first_match fence_re t = None
   | Some inner \<Rightarrow> \<exists>tag ws. first_match fence_re t = Some [fence, tag, ws, strip_tag inner, fence]"
proof (induction t)
  case Nil
  show ?case by (simp add: fenced_interior_def rmatch_fence_re fence_def)
next
  case (Cons c cs)
  show ?case
  proof (cases "prefix fence (c # cs)")
    case False
    then have "fenced_interior (c # cs) = fenced_interior cs"
      by (cases "find_fence cs") (auto simp: fenced_interior_def)
    moreover from False have "first_match fence_re (c # cs) = first_match fence_re cs"
      by (simp add: rmatch_fence_re)
    ultimately show ?thesis
      using Cons by (cases "fenced_interior cs") (simp_all del: first_match.simps)
  next
    case True
    then have ff: "find_fence (c # cs) = Some ([], drop 2 cs)" by simp
    show ?thesis
    proof (cases "find_fence (drop 2 cs)")
      case (Some p)
      obtain inner after where p: "p = (inner, after)" by (cases p)
      with Some ff have fi: "fenced_interior (c # cs) = Some inner"
        by (simp add: fenced_interior_def)
      from rmatch_after_fence_Some [of "drop 2 cs" inner after] Some p
      obtain tag ws where "rmatch (tl fence_re) (drop 2 cs) = Some [tag, ws, strip_tag inner, fence]"
        by auto
      with True have "rmatch fence_re (c # cs) = Some [fence, tag, ws, strip_tag inner, fence]"
        by (simp add: rmatch_fence_re drop_fence)
      then have "first_match fence_re (c # cs) = Some [fence, tag, ws, strip_tag inner, fence]"
        by simp
      with fi show ?thesis by auto
    next
      case None
      with ff have fi: "fenced_interior (c # cs) = None"
        by (simp add: fenced_interior_def)
      from rmatch_after_fence_None [OF None] True have "rmatch fence_re (c # cs) = None"
        by (simp add: rmatch_fence_re drop_fence)
      then have fm: "first_match fence_re (c # cs) = first_match fence_re cs" by simp
      have "fenced_interior cs = None"
      proof (cases "find_fence cs")
        case None
        then show ?thesis by (simp add: fenced_interior_def)
      next
        case (Some q)
        obtain b rest where q: "q = (b, rest)" by (cases q)
        with Some find_fence_rest [of cs b rest] have "rest = drop (length b + 1) (drop 2 cs)"
          by (simp add: eval_nat_numeral)
        with find_fence_drop [OF None, of "length b + 1"] have "find_fence rest = None"
          by simp
        with Some q show ?thesis by (simp add: fenced_interior_def)
      qed
      with Cons fm fi show ?thesis by (simp del: first_match.simps)
    qed
  qed
qed

lemma match_fence:
  "case fenced_interior t of
     None \<Rightarrow> match_re fence_re t = None
   | Some inner \<Rightarrow> \<exists>whole. match_re fence_re t = Some [whole, strip_tag inner]"
proof (cases "fenced_interior t")
  case None
  with first_match_fence [of t] show ?thesis by (simp add: match_re_def)
next
  case (Some inner)
  with first_match_fence [of t] obtain tag ws where
    fm: "first_match fence_re t = Some [fence, tag, ws, strip_tag inner, fence]" by auto
  have "match_re fence_re t = Some [concat [fence, tag, ws, strip_tag inner, fence], strip_tag inner]"
    unfolding match_re_def fm by (simp add: fence_re_def)
  with Some show ?thesis by simp
qed


lemma brace_span_prepend: "0x7B \<notin> set w \<Longrightarrow> brace_span (w @ s) = brace_span s"
proof -
  assume "0x7B \<notin> set w"
  then have "dropWhile (\<lambda>c. c \<noteq> 0x7B) (w @ s) = dropWhile (\<lambda>c. c \<noteq> 0x7B) s"
    by (intro dropWhile_append2) auto
  then show ?thesis by (simp add: brace_span_def)
qed

lemma brace_span_append:
  assumes "0x7B \<notin> set w" and "0x7D \<notin> set w"
  shows "brace_span (s @ w) = brace_span s"
proof (cases "0x7B \<in> set s")
  case False
  with assms(1) have "0x7B \<notin> set (s @ w)" by simp
  then have e1: "dropWhile (\<lambda>c. c \<noteq> 0x7B) (s @ w) = []"
    unfolding dropWhile_eq_Nil_conv by blast
  from False have e2: "dropWhile (\<lambda>c. c \<noteq> 0x7B) s = []"
    unfolding dropWhile_eq_Nil_conv by blast
  show ?thesis unfolding brace_span_def e1 e2 by simp
next
  case True
  let ?t = "dropWhile (\<lambda>c. c \<noteq> 0x7B) s"
  from True have t: "dropWhile (\<lambda>c. c \<noteq> 0x7B) (s @ w) = ?t @ w"
    by (auto simp: dropWhile_append)
  have "through_last 0x7D (?t @ w) = through_last 0x7D ?t"
    unfolding through_last_def rev_append
    using assms(2) by (intro arg_cong [where f = rev] dropWhile_append2) auto
  with assms(2) show ?thesis
    unfolding brace_span_def t by (simp add: Let_def)
qed

lemma trim_decomp:
  "\<exists>a b. s = a @ trim s @ b \<and> (\<forall>c \<in> set a. is_space c) \<and> (\<forall>c \<in> set b. is_space c)"
proof -
  let ?u = "dropWhile is_space s"
  have "?u = rev (dropWhile is_space (rev ?u)) @ rev (takeWhile is_space (rev ?u))"
    by (metis rev_append rev_rev_ident takeWhile_dropWhile_id)
  then have "?u = trim s @ rev (takeWhile is_space (rev ?u))"
    by (simp only: trim_def)
  then have "s = takeWhile is_space s @ trim s @ rev (takeWhile is_space (rev ?u))"
    by (metis takeWhile_dropWhile_id)
  moreover have "\<forall>c \<in> set (takeWhile is_space s). is_space c"
    by (auto dest: set_takeWhileD)
  moreover have "\<forall>c \<in> set (rev (takeWhile is_space (rev ?u))). is_space c"
    by (auto dest: set_takeWhileD)
  ultimately show ?thesis by blast
qed

lemma space_not_brace: "is_space c \<Longrightarrow> c \<noteq> 0x7B \<and> c \<noteq> 0x7D"
  by (auto simp: is_space_def)

lemma brace_span_trim: "brace_span (trim s) = brace_span s"
proof -
  from trim_decomp [of s] obtain a b where s: "s = a @ trim s @ b"
    and a: "\<forall>c \<in> set a. is_space c" and b: "\<forall>c \<in> set b. is_space c" by blast
  from a have "0x7B \<notin> set a" by (auto dest: space_not_brace)
  moreover from b have "0x7B \<notin> set b" and "0x7D \<notin> set b" by (auto dest: space_not_brace)
  ultimately have "brace_span (a @ trim s @ b) = brace_span (trim s)"
    using brace_span_prepend [of a "trim s @ b"] brace_span_append [of b "trim s"] by simp
  with s show ?thesis by simp
qed

lemma brace_span_strip_tag: "brace_span (strip_tag s) = brace_span s"
proof -
  let ?r = "if prefix (str ''json'') s then drop 4 s else s"
  have "0x7B \<notin> set (takeWhile is_space ?r)"
    by (auto dest!: set_takeWhileD space_not_brace)
  from brace_span_prepend [OF this, of "dropWhile is_space ?r"]
  have "brace_span (strip_tag s) = brace_span ?r"
    by (simp add: strip_tag_def)
  also have "\<dots> = brace_span s"
  proof (cases "prefix (str ''json'') s")
    case False
    then show ?thesis by simp
  next
    case True
    then obtain r where "s = str ''json'' @ r" by (auto simp: prefix_def)
    moreover have "0x7B \<notin> set (str ''json'')" by (simp add: str_def)
    ultimately show ?thesis
      using brace_span_prepend [of "str ''json''" r] True by (simp add: str_def)
  qed
  finally show ?thesis .
qed

lemma accepts_results:
  "(if truthy (opt_get data Presults) then
      bind_err (get eng data Presults) (\<lambda>results.
        if is_array results then Inr data else Inr JNull)
    else Inr JNull) =
   Inr (case own data Presults of Some (JArr rs) \<Rightarrow> data | _ \<Rightarrow> JNull)"
proof (cases "data = JNull")
  case True
  then show ?thesis by (simp add: opt_get_def)
next
  case False
  then show ?thesis
    by (auto simp: opt_get_def get_def bind_err_def is_array_def
        split: option.splits json.splits)
qed

lemma tryParsePubMed_string:
  "tryParsePubMed eng (Some (JStr c)) =
     Inr (case brace_span (case fenced_interior (trim c) of
                             None \<Rightarrow> trim c
                           | Some inner \<Rightarrow> trim (strip_tag inner)) of
            None \<Rightarrow> JNull
          | Some sub \<Rightarrow> accept eng sub)"
proof -
  let ?t = "trim c"
  have block: "(case match_re fence_re ?t of
                  None \<Rightarrow> Inr ?t
                | Some codeBlock \<Rightarrow> trim_method eng (index codeBlock 1)) =
               Inr (case fenced_interior ?t of None \<Rightarrow> ?t | Some inner \<Rightarrow> trim (strip_tag inner))"
    using match_fence [of ?t]
    by (cases "fenced_interior ?t") (auto simp: index_def)
  show ?thesis
    unfolding tryParsePubMed_def
    by (simp add: block bind_err_def match_brace accepts_results accept_def index_def
        to_string_opt_def split: option.splits sum.splits)
qed

section \<open>Theorems on the content renderer\<close>

lemma accept_cases:
  "accept eng sub = JNull \<or>
   (\<exists>rs. JSON_parse eng sub = Inr (accept eng sub) \<and> own (accept eng sub) Presults = Some (JArr rs))"
  by (auto simp: accept_def split: sum.splits option.splits json.splits)

lemma tryParsePubMed_cases:
  "\<exists>v. tryParsePubMed eng content = Inr v \<and>
       (v = JNull \<or>
        (\<exists>sub results. JSON_parse eng sub = Inr v \<and> own v Presults = Some (JArr results)))"
proof (cases "typeof content = ''string''")
  case False
  then show ?thesis by (simp add: tryParsePubMed_def)
next
  case True
  then obtain c where c: "content = Some (JStr c)"
    by (cases content rule: typeof.cases) simp_all
  let ?block = "case fenced_interior (trim c) of None \<Rightarrow> trim c | Some inner \<Rightarrow> trim (strip_tag inner)"
  show ?thesis
  proof (cases "brace_span ?block")
    case None
    with c show ?thesis by (simp add: tryParsePubMed_string)
  next
    case (Some sub)
    with c have "tryParsePubMed eng content = Inr (accept eng sub)"
      by (simp add: tryParsePubMed_string)
    with accept_cases [of eng sub] show ?thesis by auto
  qed
qed

lemma throws_bind_err:
  "throws (bind_err m f) = (case m of Inl e \<Rightarrow> True | Inr x \<Rightarrow> throws (f x))"
  by (simp add: throws_def bind_err_def split: sum.splits)

lemma throws_simps: "throws (Inl e)" "\<not> throws (Inr x)"
  by (simp_all add: throws_def)

lemma not_throws: "(\<not> throws m) = (\<exists>x. m = Inr x)"
  by (cases m) (simp_all add: throws_def)

lemma to_string_printable:
  "throws (to_string eng v) = (\<not> printable v)"
  "throws (join eng xs) = (\<not> list_all printable xs)"
  by (induction eng v and eng xs rule: to_string_join.induct)
    (auto simp: throws_def bind_err_def split: sum.splits)

lemma child_nodes_plain:
  "throws (child_nodes eng v) = (\<not> plain v)"
  "throws (children_nodes eng xs) = (\<not> list_all plain xs)"
  by (induction eng v and eng xs rule: child_nodes_children_nodes.induct)
    (auto simp: throws_def bind_err_def split: sum.splits)

lemma not_printable_truthy: "\<not> printable v \<Longrightarrow> truthy (Some v)"
  by (cases v) simp_all

lemma key_printable:
  "throws (to_string eng (or_else pmid (JNum False i 0))) = (\<not> linkable pmid)"
proof (cases pmid)
  case None
  then show ?thesis by (simp add: or_else_def linkable_def throws_def)
next
  case (Some v)
  show ?thesis
  proof (cases "truthy (Some v)")
    case True
    with Some show ?thesis by (simp add: or_else_def linkable_def to_string_printable)
  next
    case False
    then have "printable v" using not_printable_truthy by blast
    with Some False show ?thesis by (simp add: or_else_def linkable_def throws_def)
  qed
qed

lemma pubmed_card_keyable:
  assumes "keyable r"
  shows "\<exists>c. pubmed_card eng r i = Inr c \<and> entry_card eng r i c"
proof -
  from assms have r: "r \<noteq> JNull" and l: "linkable (own r Ppmid)"
    by (simp_all add: keyable_def)
  from l have "\<not> throws (to_string eng (or_else (own r Ppmid) (JNum False i 0)))"
    by (simp add: key_printable)
  then obtain k where k: "to_string eng (or_else (own r Ppmid) (JNum False i 0)) = Inr k"
    by (auto simp: not_throws)
  with r show ?thesis
    by (simp add: pubmed_card_def get_def bind_err_def entry_card_def)
qed

lemma pubmed_card_throws:
  assumes "\<not> keyable r"
  shows "throws (pubmed_card eng r i)"
proof (cases "r = JNull")
  case True
  then show ?thesis by (simp add: pubmed_card_def get_def bind_err_def throws_def)
next
  case False
  with assms have "throws (to_string eng (or_else (own r Ppmid) (JNum False i 0)))"
    by (simp add: keyable_def key_printable)
  then obtain e where "to_string eng (or_else (own r Ppmid) (JNum False i 0)) = Inl e"
    by (cases "to_string eng (or_else (own r Ppmid) (JNum False i 0))") (simp_all add: throws_def)
  with False show ?thesis by (simp add: pubmed_card_def get_def bind_err_def throws_def)
qed

lemma pubmed_cards_keyed:
  "list_all keyable rs \<Longrightarrow>
   \<exists>cs. pubmed_cards eng rs i = Inr cs \<and> length cs = length rs \<and>
        (\<forall>j<length rs. entry_card eng (rs ! j) (i + j) (cs ! j))"
proof (induction rs arbitrary: i)
  case Nil
  then show ?case by simp
next
  case (Cons r rs)
  from Cons.prems obtain c where c: "pubmed_card eng r i = Inr c" "entry_card eng r i c"
    using pubmed_card_keyable [of r eng i] by auto
  from Cons.prems Cons.IH [of "Suc i"] obtain cs where
    cs: "pubmed_cards eng rs (Suc i) = Inr cs" "length cs = length rs"
        "\<forall>j<length rs. entry_card eng (rs ! j) (Suc i + j) (cs ! j)"
    by auto
  have "\<forall>j<length (r # rs). entry_card eng ((r # rs) ! j) (i + j) ((c # cs) ! j)"
  proof (intro allI impI)
    fix j assume "j < length (r # rs)"
    then show "entry_card eng ((r # rs) ! j) (i + j) ((c # cs) ! j)"
      using c(2) cs(3) by (cases j) auto
  qed
  with c cs show ?case by (simp add: bind_err_def)
qed

lemma pubmed_cards_throws: "\<not> list_all keyable rs \<Longrightarrow> throws (pubmed_cards eng rs i)"
proof (induction rs arbitrary: i)
  case Nil
  then show ?case by simp
next
  case (Cons r rs)
  show ?case
  proof (cases "keyable r")
    case True
    with Cons.prems have "throws (pubmed_cards eng rs (Suc i))"
      using Cons.IH by simp
    then show ?thesis by (auto simp: throws_bind_err throws_simps split: sum.splits)
  next
    case False
    then have "throws (pubmed_card eng r i)" by (rule pubmed_card_throws)
    then show ?thesis by (auto simp: throws_bind_err throws_simps split: sum.splits)
  qed
qed

lemma MessageContent_accepted:
  assumes "tryParsePubMed eng content = Inr payload" and "own payload Presults = Some (JArr results)"
  shows "MessageContent eng content role =
     bind_err (pubmed_cards eng results 0) (\<lambda>cs.
       Inr (PubmedResults (own payload Ptotal_results) (guard (own payload Pquery)) cs))"
proof -
  from assms(2) have "payload \<noteq> JNull" and "truthy (Some payload)"
    by (cases payload; simp)+
  with assms show ?thesis
    by (simp add: MessageContent_def bind_err_def get_def)
qed

lemma tryParsePubMed_candidate:
  "tryParsePubMed eng (Some (JStr c)) =
     Inr (case candidate c of None \<Rightarrow> JNull | Some sub \<Rightarrow> accept eng sub)"
  by (cases "fenced_interior (trim c)")
    (simp_all add: tryParsePubMed_string candidate_def brace_span_trim brace_span_strip_tag)

lemma tryParsePubMed_accepted:
  assumes "tryParsePubMed eng content = Inr payload" and "payload \<noteq> JNull"
  shows "\<exists>c sub results. content = Some (JStr c) \<and> candidate c = Some sub \<and>
           JSON_parse eng sub = Inr payload \<and> own payload Presults = Some (JArr results)"
proof -
  from assms have "typeof content = ''string''"
    by (auto simp: tryParsePubMed_def split: if_splits)
  then obtain c where c: "content = Some (JStr c)"
    by (cases content rule: typeof.cases) simp_all
  with assms tryParsePubMed_candidate [of eng c]
  obtain sub where sub: "candidate c = Some sub" and p: "accept eng sub = payload"
    by (cases "candidate c") auto
  with assms(2) accept_cases [of eng sub] c show ?thesis by auto
qed

lemma href_linkable: "linkable v \<Longrightarrow> \<exists>a. href eng v = Inr a"
proof (cases v)
  case None
  then show ?thesis by (simp add: href_def)
next
  case (Some u)
  assume "linkable v"
  with Some have "\<not> throws (to_string eng u)"
    by (simp add: linkable_def to_string_printable)
  then obtain s where "to_string eng u = Inr s" by (auto simp: not_throws)
  with Some show ?thesis by (cases u) (simp_all add: href_def bind_err_def)
qed

lemma href_string: "href eng (Some (JStr u)) = Inr [(''href'', url_attribute eng u)]"
  by (simp add: href_def bind_err_def)

lemma child_nodes_drawn: "plain v \<Longrightarrow> \<exists>t. child_nodes eng v = Inr t"
  using child_nodes_plain(1) [of eng v] by (simp add: not_throws [symmetric])

lemma child_nodes_opt_drawable: "drawable v \<Longrightarrow> \<exists>t. child_nodes_opt eng v = Inr t"
  by (cases v) (simp_all add: drawable_def child_nodes_opt_def child_nodes_drawn)

lemma mount_line_drawable:
  assumes "drawable v"
  shows "\<exists>t. mount_line eng cls (guard v) = Inr t"
proof (cases v)
  case None
  then show ?thesis by (simp add: guard_def mount_line_def child_nodes_opt_def)
next
  case (Some j)
  with assms obtain t where t: "child_nodes eng j = Inr t"
    using child_nodes_drawn [of j eng] by (auto simp: drawable_def)
  with Some show ?thesis
    by (simp add: guard_def mount_line_def child_nodes_opt_def bind_err_def)
qed

lemma query_drawable:
  assumes "drawable v"
  shows "\<exists>q. (case guard v of
               Hidden v \<Rightarrow> child_nodes_opt eng v
             | Shown v \<Rightarrow>
                 bind_err (child_nodes eng v) (\<lambda>t.
                 Inr [Element ''span'' [] (TextNode (str ''Query: '') # t)])) = Inr q"
proof (cases v)
  case None
  then show ?thesis by (simp add: guard_def child_nodes_opt_def)
next
  case (Some j)
  with assms obtain t where t: "child_nodes eng j = Inr t"
    using child_nodes_drawn [of j eng] by (auto simp: drawable_def)
  with Some show ?thesis
    by (simp add: guard_def child_nodes_opt_def bind_err_def)
qed

lemma title_nodes:
  assumes "drawable ttl"
  shows "\<exists>t. child_nodes eng (or_else ttl (JStr (str ''Untitled''))) = Inr t"
proof (cases ttl)
  case None
  then show ?thesis by (simp add: or_else_def)
next
  case (Some j)
  with assms obtain t where t: "child_nodes eng j = Inr t"
    using child_nodes_drawn [of j eng] by (auto simp: drawable_def)
  with Some show ?thesis by (simp add: or_else_def)
qed

lemma untitled_nodes:
  "child_nodes eng (or_else None (JStr (str ''Untitled''))) = Inr [TextNode (str ''Untitled'')]"
  by (simp add: or_else_def str_def)

lemma mount_card_drawable:
  assumes "entry_card eng r i c" and "entry_drawable r"
  shows "\<exists>h t mid.
           href eng (own r Purl) = Inr h \<and>
           child_nodes eng (or_else (own r Ptitle) (JStr (str ''Untitled''))) = Inr t \<and>
           mount_card eng c =
             Inr (Element ''article'' [(''class'', str ''pubmed-card'')]
                   (Element ''h3'' [(''class'', str ''pubmed-card-title'')]
                      [Element ''a''
                         (h @ [(''target'', str ''_blank''), (''rel'', str ''noopener noreferrer'')]) t]
                    # mid @
                    [Element ''a''
                       (h @ [(''target'', str ''_blank''), (''rel'', str ''noopener noreferrer''),
                             (''class'', str ''pubmed-card-link'')])
                       [TextNode (str ''View on PubMed '' @ [0x2192])]]))"
proof -
  from assms(2) obtain h where h: "href eng (own r Purl) = Inr h"
    using href_linkable [of "own r Purl" eng] by (auto simp: entry_drawable_def)
  from assms(2) obtain t where
    t: "child_nodes eng (or_else (own r Ptitle) (JStr (str ''Untitled''))) = Inr t"
    using title_nodes [of "own r Ptitle" eng] by (auto simp: entry_drawable_def)
  from assms(2) obtain a where
    a: "mount_line eng ''pubmed-card-meta'' (guard (own r Pauthors)) = Inr a"
    using mount_line_drawable [of "own r Pauthors" eng] by (auto simp: entry_drawable_def)
  from assms(2) obtain j where
    j: "mount_line eng ''pubmed-card-citation'' (guard (own r Pjournal_citation)) = Inr j"
    using mount_line_drawable [of "own r Pjournal_citation" eng] by (auto simp: entry_drawable_def)
  from assms(2) obtain s where
    s: "mount_line eng ''pubmed-card-snippet'' (guard (own r Psnippet)) = Inr s"
    using mount_line_drawable [of "own r Psnippet" eng] by (auto simp: entry_drawable_def)
  from assms(1) have c: "title_href c = own r Purl" "link_href c = own r Purl"
    "title c = or_else (own r Ptitle) (JStr (str ''Untitled''))"
    "authors c = guard (own r Pauthors)" "citation c = guard (own r Pjournal_citation)"
    "snippet c = guard (own r Psnippet)"
    by (simp_all add: entry_card_def)
  have "mount_card eng c =
      Inr (Element ''article'' [(''class'', str ''pubmed-card'')]
            (Element ''h3'' [(''class'', str ''pubmed-card-title'')]
               [Element ''a''
                  (h @ [(''target'', str ''_blank''), (''rel'', str ''noopener noreferrer'')]) t]
             # (a @ j @ s) @
             [Element ''a''
                (h @ [(''target'', str ''_blank''), (''rel'', str ''noopener noreferrer''),
                      (''class'', str ''pubmed-card-link'')])
                [TextNode (str ''View on PubMed '' @ [0x2192])]]))"
    unfolding mount_card_def c h t a j s by (simp add: bind_err_def)
  with h t show ?thesis by blast
qed

lemma mount_cards_all:
  "\<forall>c\<in>set cs. \<exists>d. mount_card eng c = Inr d \<Longrightarrow>
   \<exists>ds. mount_cards eng cs = Inr ds \<and> length ds = length cs \<and>
        (\<forall>j<length cs. mount_card eng (cs ! j) = Inr (ds ! j))"
proof (induction cs)
  case Nil
  then show ?case by simp
next
  case (Cons c cs)
  from Cons.prems obtain d where d: "mount_card eng c = Inr d" by auto
  from Cons obtain ds where ds: "mount_cards eng cs = Inr ds" "length ds = length cs"
    "\<forall>j<length cs. mount_card eng (cs ! j) = Inr (ds ! j)"
    by auto
  have "\<forall>j<length (c # cs). mount_card eng ((c # cs) ! j) = Inr ((d # ds) ! j)"
  proof (intro allI impI)
    fix j assume "j < length (c # cs)"
    then show "mount_card eng ((c # cs) ! j) = Inr ((d # ds) ! j)"
      using d ds(3) by (cases j) auto
  qed
  with d ds show ?case by (simp add: bind_err_def)
qed

lemma renderable_keyable:
  "list_all entry_drawable rs \<Longrightarrow> list_all keyable rs"
  by (induction rs) (simp_all add: entry_drawable_def)

lemma render_renderable:
  assumes "tryParsePubMed eng content = Inr payload"
    and "own payload Presults = Some (JArr results)"
    and "renderable payload"
  shows "\<exists>cards meta ds.
           MessageContent eng content role =
             Inr (PubmedResults (own payload Ptotal_results) (guard (own payload Pquery)) cards) \<and>
           length cards = length results \<and>
           (\<forall>j<length results. entry_card eng (results ! j) j (cards ! j)) \<and>
           render eng content role =
             Inr (Element ''div'' [(''class'', str ''pubmed-results'')]
                   [meta, Element ''div'' [(''class'', str ''pubmed-cards'')] ds]) \<and>
           length ds = length results \<and>
           (\<forall>j<length results. mount_card eng (cards ! j) = Inr (ds ! j))"
proof -
  from assms(2,3) have d: "list_all entry_drawable results"
    and dt: "drawable (own payload Ptotal_results)" and dq: "drawable (own payload Pquery)"
    by (simp_all add: renderable_def)
  from d have "list_all keyable results" by (rule renderable_keyable)
  from pubmed_cards_keyed [OF this, of eng 0] obtain cards where
    cards: "pubmed_cards eng results 0 = Inr cards" "length cards = length results"
      "\<forall>j<length results. entry_card eng (results ! j) j (cards ! j)"
    by auto
  have view: "MessageContent eng content role =
      Inr (PubmedResults (own payload Ptotal_results) (guard (own payload Pquery)) cards)"
    by (simp add: MessageContent_accepted [OF assms(1,2)] cards(1) bind_err_def)
  have "\<forall>c\<in>set cards. \<exists>d. mount_card eng c = Inr d"
  proof
    fix c assume "c \<in> set cards"
    then obtain j where j: "j < length cards" "c = cards ! j"
      by (auto simp: in_set_conv_nth)
    with cards have "entry_card eng (results ! j) j c" by simp
    moreover from d j cards(2) have "entry_drawable (results ! j)"
      by (simp add: list_all_length)
    ultimately show "\<exists>d. mount_card eng c = Inr d"
      using mount_card_drawable [of eng "results ! j" j c] by blast
  qed
  from mount_cards_all [OF this] obtain ds where
    ds: "mount_cards eng cards = Inr ds" "length ds = length cards"
      "\<forall>j<length cards. mount_card eng (cards ! j) = Inr (ds ! j)"
    by auto
  from dt obtain n where n: "child_nodes_opt eng (own payload Ptotal_results) = Inr n"
    using child_nodes_opt_drawable by blast
  from query_drawable [OF dq, of eng] obtain q where
    q: "(case guard (own payload Pquery) of
           Hidden v \<Rightarrow> child_nodes_opt eng v
         | Shown v \<Rightarrow>
             bind_err (child_nodes eng v) (\<lambda>t.
             Inr [Element ''span'' [] (TextNode (str ''Query: '') # t)])) = Inr q"
    by blast
  have "render eng content role =
      Inr (Element ''div'' [(''class'', str ''pubmed-results'')]
            [Element ''div'' [(''class'', str ''pubmed-meta'')]
               (Element ''span'' [] [Element ''strong'' [] n, TextNode (str '' results'')] # q),
             Element ''div'' [(''class'', str ''pubmed-cards'')] ds])"
    unfolding render_def view by (simp add: bind_err_def mount_def n q ds(1))
  with view cards ds show ?thesis by auto
qed

text \<open>
  Claim C2. For every string, \<open>tryParsePubMed\<close> follows the decision procedure of
  the specification: it trims the text, uses only the interior of the first
  fenced block if there is one, takes the substring from the first \<open>{\<close> to the
  last \<open>}\<close>, and returns \<open>null\<close> if there is none, if it does not parse, or if the
  parsed value has no \<open>results\<close> that is an array; otherwise it returns the
  parsed payload. In particular the fenced payload \<open>{"results":[]}\<close> is rendered
  as a result set with no entry and no count.
\<close>

theorem tryParsePubMed_decision_procedure:
  \<open>tryParsePubMed eng (Some (JStr content)) = Inr (spec_tryParsePubMed eng content)
   \<and> MessageContent eng (Some (JStr (fence @ str ''json\<newline>{"results":[]}\<newline>'' @ fence))) role
       = Inr (PubmedResults None (Hidden None) [])\<close>
proof
  show "tryParsePubMed eng (Some (JStr content)) = Inr (spec_tryParsePubMed eng content)"
    by (cases "fenced_interior (trim content)")
      (simp_all add: tryParsePubMed_string spec_tryParsePubMed_def Let_def
        brace_span_trim brace_span_strip_tag)
  show \<open>MessageContent eng (Some (JStr (fence @ str ''json\<newline>{"results":[]}\<newline>'' @ fence))) role
       = Inr (PubmedResults None (Hidden None) [])\<close>
    by code_simp
qed

text \<open>
  Claim C3. For every input value, a string or not, \<open>tryParsePubMed\<close> returns
  without throwing, and what it returns is \<open>null\<close> or the complete value
  \<open>JSON.parse\<close> built from a text, with its array of results; nothing in
  between. The text \<open>not json\<close> is rendered as plain text.
\<close>

theorem tryParsePubMed_never_throws:
  \<open>(\<exists>v. tryParsePubMed eng content = Inr v \<and>
       (v = JNull \<or>
        (\<exists>sub results. JSON_parse eng sub = Inr v \<and> own v Presults = Some (JArr results))))
   \<and> MessageContent eng (Some (JStr (str ''not json''))) role
       = Inr (MessageText (Some (JStr (str ''not json''))))\<close>
proof
  show "\<exists>v. tryParsePubMed eng content = Inr v \<and>
       (v = JNull \<or>
        (\<exists>sub results. JSON_parse eng sub = Inr v \<and> own v Presults = Some (JArr results)))"
    by (rule tryParsePubMed_cases)
  show "MessageContent eng (Some (JStr (str ''not json''))) role
       = Inr (MessageText (Some (JStr (str ''not json''))))"
    by code_simp
qed

text \<open>
  Claim C8. When \<open>tryParsePubMed\<close> accepts a content, the content is a string and
  the payload returned is the value \<open>JSON.parse\<close> built from the substring the
  procedure selects in it: the \<open>results\<close> returned are the parsed sequence itself,
  unchanged. \<open>MessageContent\<close> makes one card per entry, in the order of the
  array, each from the fields of its entry as they stand: nothing is sorted,
  merged, dropped or checked, and the \<open>url\<close> goes into both links as it is. It
  fails only on the key: it throws when an entry is \<open>null\<close> or a \<open>pmid\<close> cannot be
  converted to a string. The payload with the two entries titled \<open>A\<close> and \<open>B\<close>
  yields two cards, \<open>A\<close> then \<open>B\<close>, drawn as two articles in that order; three
  entries titled \<open>C\<close>, \<open>A\<close>, \<open>C\<close> yield three cards, \<open>C\<close>, \<open>A\<close>, \<open>C\<close>.
\<close>

theorem results_rendered_in_order:
  assumes \<open>tryParsePubMed eng content = Inr payload\<close> and \<open>payload \<noteq> JNull\<close>
  shows \<open>(\<exists>c sub results.
            content = Some (JStr c) \<and> candidate c = Some sub \<and>
            JSON_parse eng sub = Inr payload \<and> own payload Presults = Some (JArr results) \<and>
            (if list_all keyable results
             then \<exists>cards.
                    MessageContent eng content role =
                      Inr (PubmedResults (own payload Ptotal_results)
                            (guard (own payload Pquery)) cards) \<and>
                    length cards = length results \<and>
                    (\<forall>i<length results. entry_card eng (results ! i) i (cards ! i))
             else throws (MessageContent eng content role)))
         \<and> (\<exists>a b. MessageContent eng (Some (JStr (str
              ''{"total_results":2,"results":[{"title":"A","url":"http://x"},{"title":"B","url":"http://y"}]}'')))
              role = Inr (PubmedResults (Some (JNum False 2 0)) (Hidden None) [a, b])
              \<and> title a = JStr (str ''A'') \<and> title b = JStr (str ''B''))
         \<and> render eng (Some (JStr (str
              ''{"total_results":2,"results":[{"title":"A","url":"http://x"},{"title":"B","url":"http://y"}]}'')))
              role =
            Inr (Element ''div'' [(''class'', str ''pubmed-results'')]
                  [Element ''div'' [(''class'', str ''pubmed-meta'')]
                     [Element ''span'' []
                        [Element ''strong'' [] [TextNode (number_string eng False 2 0)],
                         TextNode (str '' results'')]],
                   Element ''div'' [(''class'', str ''pubmed-cards'')]
                     [Element ''article'' [(''class'', str ''pubmed-card'')]
                        [Element ''h3'' [(''class'', str ''pubmed-card-title'')]
                           [Element ''a''
                              [(''href'', url_attribute eng (str ''http://x'')),
                               (''target'', str ''_blank''), (''rel'', str ''noopener noreferrer'')]
                              [TextNode (str ''A'')]],
                         Element ''a''
                           [(''href'', url_attribute eng (str ''http://x'')),
                            (''target'', str ''_blank''), (''rel'', str ''noopener noreferrer''),
                            (''class'', str ''pubmed-card-link'')]
                           [TextNode (str ''View on PubMed '' @ [0x2192])]],
                      Element ''article'' [(''class'', str ''pubmed-card'')]
                        [Element ''h3'' [(''class'', str ''pubmed-card-title'')]
                           [Element ''a''
                              [(''href'', url_attribute eng (str ''http://y'')),
                               (''target'', str ''_blank''), (''rel'', str ''noopener noreferrer'')]
                              [TextNode (str ''B'')]],
                         Element ''a''
                           [(''href'', url_attribute eng (str ''http://y'')),
                            (''target'', str ''_blank''), (''rel'', str ''noopener noreferrer''),
                            (''class'', str ''pubmed-card-link'')]
                           [TextNode (str ''View on PubMed '' @ [0x2192])]]]])
         \<and> (\<exists>cards. MessageContent eng (Some (JStr (str
              ''{"results":[{"title":"C"},{"title":"A"},{"title":"C"}]}''))) role
              = Inr (PubmedResults None (Hidden None) cards)
              \<and> map title cards = [JStr (str ''C''), JStr (str ''A''), JStr (str ''C'')])\<close>
proof (intro conjI)
  from tryParsePubMed_accepted [OF assms] obtain c sub results where
    c: "content = Some (JStr c)" "candidate c = Some sub" "JSON_parse eng sub = Inr payload"
    and r: "own payload Presults = Some (JArr results)"
    by blast
  note view = MessageContent_accepted [OF assms(1) r, of role]
  have "if list_all keyable results
        then \<exists>cards.
               MessageContent eng content role =
                 Inr (PubmedResults (own payload Ptotal_results)
                       (guard (own payload Pquery)) cards) \<and>
               length cards = length results \<and>
               (\<forall>i<length results. entry_card eng (results ! i) i (cards ! i))
        else throws (MessageContent eng content role)"
  proof (cases "list_all keyable results")
    case True
    from pubmed_cards_keyed [OF True, of eng 0] obtain cards where
      "pubmed_cards eng results 0 = Inr cards" "length cards = length results"
      "\<forall>j<length results. entry_card eng (results ! j) j (cards ! j)"
      by auto
    with True view show ?thesis by (simp add: bind_err_def)
  next
    case False
    then have "throws (pubmed_cards eng results 0)" by (rule pubmed_cards_throws)
    with False view show ?thesis by (auto simp: throws_bind_err throws_simps split: sum.splits)
  qed
  with c r
  show "\<exists>c sub results.
            content = Some (JStr c) \<and> candidate c = Some sub \<and>
            JSON_parse eng sub = Inr payload \<and> own payload Presults = Some (JArr results) \<and>
            (if list_all keyable results
             then \<exists>cards.
                    MessageContent eng content role =
                      Inr (PubmedResults (own payload Ptotal_results)
                            (guard (own payload Pquery)) cards) \<and>
                    length cards = length results \<and>
                    (\<forall>i<length results. entry_card eng (results ! i) i (cards ! i))
             else throws (MessageContent eng content role))"
    by blast
  have \<open>MessageContent eng (Some (JStr (str
              ''{"total_results":2,"results":[{"title":"A","url":"http://x"},{"title":"B","url":"http://y"}]}'')))
              role = Inr (PubmedResults (Some (JNum False 2 0)) (Hidden None)
       [\<lparr>key = number_string eng False 0 0, title_href = Some (JStr (str ''http://x'')),
          title = JStr (str ''A''),
          authors = Hidden None, citation = Hidden None, snippet = Hidden None,
          link_href = Some (JStr (str ''http://x''))\<rparr>,
        \<lparr>key = number_string eng False 1 0, title_href = Some (JStr (str ''http://y'')),
          title = JStr (str ''B''),
          authors = Hidden None, citation = Hidden None, snippet = Hidden None,
          link_href = Some (JStr (str ''http://y''))\<rparr>])\<close>
    by code_simp
  then show \<open>\<exists>a b. MessageContent eng (Some (JStr (str
              ''{"total_results":2,"results":[{"title":"A","url":"http://x"},{"title":"B","url":"http://y"}]}'')))
              role = Inr (PubmedResults (Some (JNum False 2 0)) (Hidden None) [a, b])
              \<and> title a = JStr (str ''A'') \<and> title b = JStr (str ''B'')\<close>
    by simp
  show \<open>render eng (Some (JStr (str
              ''{"total_results":2,"results":[{"title":"A","url":"http://x"},{"title":"B","url":"http://y"}]}'')))
              role =
            Inr (Element ''div'' [(''class'', str ''pubmed-results'')]
                  [Element ''div'' [(''class'', str ''pubmed-meta'')]
                     [Element ''span'' []
                        [Element ''strong'' [] [TextNode (number_string eng False 2 0)],
                         TextNode (str '' results'')]],
                   Element ''div'' [(''class'', str ''pubmed-cards'')]
                     [Element ''article'' [(''class'', str ''pubmed-card'')]
                        [Element ''h3'' [(''class'', str ''pubmed-card-title'')]
                           [Element ''a''
                              [(''href'', url_attribute eng (str ''http://x'')),
                               (''target'', str ''_blank''), (''rel'', str ''noopener noreferrer'')]
                              [TextNode (str ''A'')]],
                         Element ''a''
                           [(''href'', url_attribute eng (str ''http://x'')),
                            (''target'', str ''_blank''), (''rel'', str ''noopener noreferrer''),
                            (''class'', str ''pubmed-card-link'')]
                           [TextNode (str ''View on PubMed '' @ [0x2192])]],
                      Element ''article'' [(''class'', str ''pubmed-card'')]
                        [Element ''h3'' [(''class'', str ''pubmed-card-title'')]
                           [Element ''a''
                              [(''href'', url_attribute eng (str ''http://y'')),
                               (''target'', str ''_blank''), (''rel'', str ''noopener noreferrer'')]
                              [TextNode (str ''B'')]],
                         Element ''a''
                           [(''href'', url_attribute eng (str ''http://y'')),
                            (''target'', str ''_blank''), (''rel'', str ''noopener noreferrer''),
                            (''class'', str ''pubmed-card-link'')]
                           [TextNode (str ''View on PubMed '' @ [0x2192])]]]])\<close>
    by code_simp
  have \<open>MessageContent eng (Some (JStr (str
              ''{"results":[{"title":"C"},{"title":"A"},{"title":"C"}]}''))) role
              = Inr (PubmedResults None (Hidden None)
       [\<lparr>key = number_string eng False 0 0, title_href = None, title = JStr (str ''C''),
          authors = Hidden None, citation = Hidden None, snippet = Hidden None,
          link_href = None\<rparr>,
        \<lparr>key = number_string eng False 1 0, title_href = None, title = JStr (str ''A''),
          authors = Hidden None, citation = Hidden None, snippet = Hidden None,
          link_href = None\<rparr>,
        \<lparr>key = number_string eng False 2 0, title_href = None, title = JStr (str ''C''),
          authors = Hidden None, citation = Hidden None, snippet = Hidden None,
          link_href = None\<rparr>])\<close>
    by code_simp
  then show \<open>\<exists>cards. MessageContent eng (Some (JStr (str
              ''{"results":[{"title":"C"},{"title":"A"},{"title":"C"}]}''))) role
              = Inr (PubmedResults None (Hidden None) cards)
              \<and> map title cards = [JStr (str ''C''), JStr (str ''A''), JStr (str ''C'')]\<close>
    by simp
qed

theorem results_rendered_in_order_witness:
  \<open>tryParsePubMed sample_engine (Some (JStr (str
       ''{"results":[{"pmid":"7","title":"C"},{"pmid":"7","title":"A"},{"pmid":"7","title":"C"}]}'')))
     = Inr (JObj [(str ''results'',
              JArr [JObj [(str ''pmid'', JStr (str ''7'')), (str ''title'', JStr (str ''C''))],
                    JObj [(str ''pmid'', JStr (str ''7'')), (str ''title'', JStr (str ''A''))],
                    JObj [(str ''pmid'', JStr (str ''7'')), (str ''title'', JStr (str ''C''))]])])
   \<and> JObj [(str ''results'',
              JArr [JObj [(str ''pmid'', JStr (str ''7'')), (str ''title'', JStr (str ''C''))],
                    JObj [(str ''pmid'', JStr (str ''7'')), (str ''title'', JStr (str ''A''))],
                    JObj [(str ''pmid'', JStr (str ''7'')), (str ''title'', JStr (str ''C''))]])]
       \<noteq> JNull
   \<and> (\<exists>sub cards.
         candidate (str
           ''{"results":[{"pmid":"7","title":"C"},{"pmid":"7","title":"A"},{"pmid":"7","title":"C"}]}'')
           = Some sub \<and>
         JSON_parse sample_engine sub
           = Inr (JObj [(str ''results'',
              JArr [JObj [(str ''pmid'', JStr (str ''7'')), (str ''title'', JStr (str ''C''))],
                    JObj [(str ''pmid'', JStr (str ''7'')), (str ''title'', JStr (str ''A''))],
                    JObj [(str ''pmid'', JStr (str ''7'')), (str ''title'', JStr (str ''C''))]])]) \<and>
         MessageContent sample_engine (Some (JStr (str
           ''{"results":[{"pmid":"7","title":"C"},{"pmid":"7","title":"A"},{"pmid":"7","title":"C"}]}'')))
           None = Inr (PubmedResults None (Hidden None) cards) \<and>
         map key cards = [str ''7'', str ''7'', str ''7''] \<and>
         map title cards = [JStr (str ''C''), JStr (str ''A''), JStr (str ''C'')])\<close>
proof -
  let ?t = \<open>str
    ''{"results":[{"pmid":"7","title":"C"},{"pmid":"7","title":"A"},{"pmid":"7","title":"C"}]}''\<close>
  let ?e1 = "JObj [(str ''pmid'', JStr (str ''7'')), (str ''title'', JStr (str ''C''))]"
  let ?e2 = "JObj [(str ''pmid'', JStr (str ''7'')), (str ''title'', JStr (str ''A''))]"
  let ?p = "JObj [(str ''results'', JArr [?e1, ?e2, ?e1])]"
  have h1: "tryParsePubMed sample_engine (Some (JStr ?t)) = Inr ?p" by code_simp
  have h2: "?p \<noteq> JNull" by simp
  have k: "list_all keyable [?e1, ?e2, ?e1]" by code_simp
  have e: "own ?e1 Ppmid = Some (JStr (str ''7''))" "own ?e2 Ppmid = Some (JStr (str ''7''))"
    "own ?e1 Ptitle = Some (JStr (str ''C''))" "own ?e2 Ptitle = Some (JStr (str ''A''))"
    "own ?p Ptotal_results = None" "own ?p Pquery = None"
    by (simp_all add: str_def)
  from results_rendered_in_order [OF h1 h2, of None, THEN conjunct1]
  obtain c sub results where c: "Some (JStr ?t) = Some (JStr c)"
    and s: "candidate c = Some sub" "JSON_parse sample_engine sub = Inr ?p"
    and r: "own ?p Presults = Some (JArr results)"
    and v: "if list_all keyable results
            then \<exists>cards.
                   MessageContent sample_engine (Some (JStr ?t)) None =
                     Inr (PubmedResults (own ?p Ptotal_results) (guard (own ?p Pquery)) cards) \<and>
                   length cards = length results \<and>
                   (\<forall>i<length results. entry_card sample_engine (results ! i) i (cards ! i))
            else throws (MessageContent sample_engine (Some (JStr ?t)) None)"
    by blast
  from r have results: "results = [?e1, ?e2, ?e1]" by (simp add: str_def)
  from c have c': "c = ?t" by simp
  from v k obtain cards where
    view: "MessageContent sample_engine (Some (JStr ?t)) None =
             Inr (PubmedResults None (Hidden None) cards)"
    and len: "length cards = 3"
    and cards: "\<forall>i<3. entry_card sample_engine ([?e1, ?e2, ?e1] ! i) i (cards ! i)"
    unfolding results e by (auto simp: guard_def)
  from len obtain a b d where abd: "cards = [a, b, d]"
    by (cases cards; simp; cases "tl cards"; simp; cases "tl (tl cards)"; simp)
  have ks: "to_string sample_engine (or_else (Some (JStr (str ''7''))) (JNum False i 0)) = Inr (str ''7'')"
    for i by (simp add: or_else_def str_def)
  have ts: "or_else (Some (JStr (str ''C''))) (JStr (str ''Untitled'')) = JStr (str ''C'')"
    "or_else (Some (JStr (str ''A''))) (JStr (str ''Untitled'')) = JStr (str ''A'')"
    by (simp_all add: or_else_def str_def)
  from cards [rule_format, of 0] cards [rule_format, of 1] cards [rule_format, of 2]
  have "entry_card sample_engine ?e1 0 a" "entry_card sample_engine ?e2 1 b"
    "entry_card sample_engine ?e1 2 d"
    unfolding abd by simp_all
  then have "key a = str ''7''" "key b = str ''7''" "key d = str ''7''"
    "title a = JStr (str ''C'')" "title b = JStr (str ''A'')" "title d = JStr (str ''C'')"
    unfolding entry_card_def e ks ts by auto
  with abd have m: "map key cards = [str ''7'', str ''7'', str ''7'']"
    "map title cards = [JStr (str ''C''), JStr (str ''A''), JStr (str ''C'')]"
    by simp_all
  from s(1) have s1: "candidate ?t = Some sub" unfolding c' .
  show ?thesis
    by (intro conjI exI) (rule h1 h2 s1 s(2) view m)+
qed

text \<open>
  Claim C9, as amended. In an accepted payload that can be drawn (no entry is
  \<open>null\<close>, every \<open>pmid\<close> and \<open>url\<close> can be converted to a string, and no field that
  is displayed is or holds an object), the card of every entry without a \<open>title\<close>
  shows the text \<open>Untitled\<close>, and its title link and its second link both carry
  the \<open>url\<close> of the entry: the same \<open>href\<close>, which for a string is what React DOM
  writes for that string.
\<close>

theorem untitled_entry_card:
  assumes "tryParsePubMed eng content = Inr payload"
    and "own payload Presults = Some (JArr results)"
    and "renderable payload"
    and "k < length results"
    and "own (results ! k) Ptitle = None"
  shows "\<exists>cards meta articles link mid.
           MessageContent eng content role =
             Inr (PubmedResults (own payload Ptotal_results) (guard (own payload Pquery)) cards) \<and>
           length cards = length results \<and>
           title (cards ! k) = JStr (str ''Untitled'') \<and>
           title_href (cards ! k) = own (results ! k) Purl \<and>
           link_href (cards ! k) = own (results ! k) Purl \<and>
           render eng content role =
             Inr (Element ''div'' [(''class'', str ''pubmed-results'')]
                   [meta, Element ''div'' [(''class'', str ''pubmed-cards'')] articles]) \<and>
           length articles = length results \<and>
           href eng (own (results ! k) Purl) = Inr link \<and>
           (\<forall>u. own (results ! k) Purl = Some (JStr u) \<longrightarrow> link = [(''href'', url_attribute eng u)]) \<and>
           articles ! k =
             Element ''article'' [(''class'', str ''pubmed-card'')]
               (Element ''h3'' [(''class'', str ''pubmed-card-title'')]
                  [Element ''a''
                     (link @ [(''target'', str ''_blank''), (''rel'', str ''noopener noreferrer'')])
                     [TextNode (str ''Untitled'')]]
                # mid @
                [Element ''a''
                   (link @ [(''target'', str ''_blank''), (''rel'', str ''noopener noreferrer''),
                            (''class'', str ''pubmed-card-link'')])
                   [TextNode (str ''View on PubMed '' @ [0x2192])]])"
proof -
  from render_renderable [OF assms(1-3), of role] obtain cards meta articles where
    view: "MessageContent eng content role =
             Inr (PubmedResults (own payload Ptotal_results) (guard (own payload Pquery)) cards)"
    and len: "length cards = length results" "length articles = length results"
    and cards: "\<forall>j<length results. entry_card eng (results ! j) j (cards ! j)"
    and page: "render eng content role =
             Inr (Element ''div'' [(''class'', str ''pubmed-results'')]
                   [meta, Element ''div'' [(''class'', str ''pubmed-cards'')] articles])"
    and articles: "\<forall>j<length results. mount_card eng (cards ! j) = Inr (articles ! j)"
    by blast
  from cards assms(4) have c: "entry_card eng (results ! k) k (cards ! k)" by simp
  from assms(2,3,4) have d: "entry_drawable (results ! k)"
    by (simp add: renderable_def list_all_length)
  from mount_card_drawable [OF c d] obtain link t mid where
    link: "href eng (own (results ! k) Purl) = Inr link"
    and t: "child_nodes eng (or_else (own (results ! k) Ptitle) (JStr (str ''Untitled''))) = Inr t"
    and m: "mount_card eng (cards ! k) =
             Inr (Element ''article'' [(''class'', str ''pubmed-card'')]
                   (Element ''h3'' [(''class'', str ''pubmed-card-title'')]
                      [Element ''a''
                         (link @ [(''target'', str ''_blank''), (''rel'', str ''noopener noreferrer'')]) t]
                    # mid @
                    [Element ''a''
                       (link @ [(''target'', str ''_blank''), (''rel'', str ''noopener noreferrer''),
                             (''class'', str ''pubmed-card-link'')])
                       [TextNode (str ''View on PubMed '' @ [0x2192])]]))"
    by blast
  from t assms(5) have t': "t = [TextNode (str ''Untitled'')]"
    by (simp add: untitled_nodes)
  from articles assms(4) m have a: "articles ! k =
             Element ''article'' [(''class'', str ''pubmed-card'')]
               (Element ''h3'' [(''class'', str ''pubmed-card-title'')]
                  [Element ''a''
                     (link @ [(''target'', str ''_blank''), (''rel'', str ''noopener noreferrer'')])
                     [TextNode (str ''Untitled'')]]
                # mid @
                [Element ''a''
                   (link @ [(''target'', str ''_blank''), (''rel'', str ''noopener noreferrer''),
                            (''class'', str ''pubmed-card-link'')])
                   [TextNode (str ''View on PubMed '' @ [0x2192])]])"
    by (simp add: t')
  from link have s: "\<forall>u. own (results ! k) Purl = Some (JStr u) \<longrightarrow> link = [(''href'', url_attribute eng u)]"
    by (auto simp: href_string)
  from c assms(5) have f: "title (cards ! k) = JStr (str ''Untitled'')"
    "title_href (cards ! k) = own (results ! k) Purl"
    "link_href (cards ! k) = own (results ! k) Purl"
    by (simp_all add: entry_card_def or_else_def)
  from view len f page link s a show ?thesis by blast
qed

theorem untitled_entry_card_witness:
  \<open>tryParsePubMed sample_engine (Some (JStr (str ''{"results":[{"url":"http://x"}]}'')))
     = Inr (JObj [(str ''results'', JArr [JObj [(str ''url'', JStr (str ''http://x''))]])])
   \<and> own (JObj [(str ''results'', JArr [JObj [(str ''url'', JStr (str ''http://x''))]])]) Presults
     = Some (JArr [JObj [(str ''url'', JStr (str ''http://x''))]])
   \<and> renderable (JObj [(str ''results'', JArr [JObj [(str ''url'', JStr (str ''http://x''))]])])
   \<and> (0::nat) < length [JObj [(str ''url'', JStr (str ''http://x''))]]
   \<and> own ([JObj [(str ''url'', JStr (str ''http://x''))]] ! 0) Ptitle = None
   \<and> (\<exists>cards meta articles mid.
         MessageContent sample_engine (Some (JStr (str ''{"results":[{"url":"http://x"}]}''))) None
           = Inr (PubmedResults None (Hidden None) cards) \<and>
         length cards = 1 \<and>
         title (cards ! 0) = JStr (str ''Untitled'') \<and>
         title_href (cards ! 0) = Some (JStr (str ''http://x'')) \<and>
         link_href (cards ! 0) = Some (JStr (str ''http://x'')) \<and>
         render sample_engine (Some (JStr (str ''{"results":[{"url":"http://x"}]}''))) None
           = Inr (Element ''div'' [(''class'', str ''pubmed-results'')]
                   [meta, Element ''div'' [(''class'', str ''pubmed-cards'')] articles]) \<and>
         length articles = 1 \<and>
         articles ! 0 =
           Element ''article'' [(''class'', str ''pubmed-card'')]
             (Element ''h3'' [(''class'', str ''pubmed-card-title'')]
                [Element ''a''
                   [(''href'', str ''http://x''), (''target'', str ''_blank''),
                    (''rel'', str ''noopener noreferrer'')]
                   [TextNode (str ''Untitled'')]]
              # mid @
              [Element ''a''
                 [(''href'', str ''http://x''), (''target'', str ''_blank''),
                  (''rel'', str ''noopener noreferrer''), (''class'', str ''pubmed-card-link'')]
                 [TextNode (str ''View on PubMed '' @ [0x2192])]]))\<close>
proof -
  let ?c = \<open>Some (JStr (str ''{"results":[{"url":"http://x"}]}''))\<close>
  let ?e = "JObj [(str ''url'', JStr (str ''http://x''))]"
  let ?p = "JObj [(str ''results'', JArr [?e])]"
  have h1: "tryParsePubMed sample_engine ?c = Inr ?p" by code_simp
  have h2: "own ?p Presults = Some (JArr [?e])" by (simp add: str_def)
  have h3: "renderable ?p" by code_simp
  have h4: "(0::nat) < length [?e]" by simp
  have h5: "own ([?e] ! 0) Ptitle = None" by (simp add: str_def)
  have u: "own ([?e] ! 0) Purl = Some (JStr (str ''http://x''))" by (simp add: str_def)
  have p: "own ?p Ptotal_results = None" "guard (own ?p Pquery) = Hidden None"
    by (simp_all add: str_def guard_def)
  have a: "url_attribute sample_engine (str ''http://x'') = str ''http://x''"
    by (simp add: sample_engine_def)
  from untitled_entry_card [OF h1 h2 h3 h4 h5, of None]
  have "\<exists>cards meta articles mid.
         MessageContent sample_engine ?c None = Inr (PubmedResults None (Hidden None) cards) \<and>
         length cards = 1 \<and>
         title (cards ! 0) = JStr (str ''Untitled'') \<and>
         title_href (cards ! 0) = Some (JStr (str ''http://x'')) \<and>
         link_href (cards ! 0) = Some (JStr (str ''http://x'')) \<and>
         render sample_engine ?c None
           = Inr (Element ''div'' [(''class'', str ''pubmed-results'')]
                   [meta, Element ''div'' [(''class'', str ''pubmed-cards'')] articles]) \<and>
         length articles = 1 \<and>
         articles ! 0 =
           Element ''article'' [(''class'', str ''pubmed-card'')]
             (Element ''h3'' [(''class'', str ''pubmed-card-title'')]
                [Element ''a''
                   [(''href'', str ''http://x''), (''target'', str ''_blank''),
                    (''rel'', str ''noopener noreferrer'')]
                   [TextNode (str ''Untitled'')]]
              # mid @
              [Element ''a''
                 [(''href'', str ''http://x''), (''target'', str ''_blank''),
                  (''rel'', str ''noopener noreferrer''), (''class'', str ''pubmed-card-link'')]
                 [TextNode (str ''View on PubMed '' @ [0x2192])]])"
    unfolding u p by (auto simp: a)
  with h1 h2 h3 h4 h5 show ?thesis by blast
qed

text \<open>
  The claim as stated fails on four payloads. Each is accepted and its entry has
  no \<open>title\<close>, and nothing is drawn: the entry is \<open>null\<close>; its \<open>pmid\<close> cannot be
  converted to a key; its \<open>snippet\<close> is an object; its \<open>url\<close> cannot be converted
  to a string.
\<close>

theorem entry_without_card_counterexample:
  \<open>(tryParsePubMed sample_engine (Some (JStr (str ''{"results":[null]}'')))
      = Inr (JObj [(str ''results'', JArr [JNull])])
    \<and> own JNull Ptitle = None
    \<and> throws (render sample_engine (Some (JStr (str ''{"results":[null]}''))) None))
   \<and> (tryParsePubMed sample_engine (Some (JStr (str ''{"results":[{"pmid":{"toString":1},"url":"u"}]}'')))
      = Inr (JObj [(str ''results'',
              JArr [JObj [(str ''pmid'', JObj [(str ''toString'', JNum False 1 0)]),
                          (str ''url'', JStr (str ''u''))]])])
    \<and> own (JObj [(str ''pmid'', JObj [(str ''toString'', JNum False 1 0)]),
                  (str ''url'', JStr (str ''u''))]) Ptitle = None
    \<and> throws (render sample_engine
         (Some (JStr (str ''{"results":[{"pmid":{"toString":1},"url":"u"}]}''))) None))
   \<and> (tryParsePubMed sample_engine (Some (JStr (str ''{"results":[{"url":"u","snippet":{"a":1}}]}'')))
      = Inr (JObj [(str ''results'',
              JArr [JObj [(str ''url'', JStr (str ''u'')),
                          (str ''snippet'', JObj [(str ''a'', JNum False 1 0)])]])])
    \<and> own (JObj [(str ''url'', JStr (str ''u'')),
                  (str ''snippet'', JObj [(str ''a'', JNum False 1 0)])]) Ptitle = None
    \<and> throws (render sample_engine
         (Some (JStr (str ''{"results":[{"url":"u","snippet":{"a":1}}]}''))) None))
   \<and> (tryParsePubMed sample_engine (Some (JStr (str ''{"results":[{"url":{"toString":1}}]}'')))
      = Inr (JObj [(str ''results'',
              JArr [JObj [(str ''url'', JObj [(str ''toString'', JNum False 1 0)])]])])
    \<and> own (JObj [(str ''url'', JObj [(str ''toString'', JNum False 1 0)])]) Ptitle = None
    \<and> throws (render sample_engine
         (Some (JStr (str ''{"results":[{"url":{"toString":1}}]}''))) None))\<close>
  by code_simp

section \<open>Theorems on the conversation controller\<close>

lemma keep_role_plain: "m \<noteq> JNull \<Longrightarrow> keep_role eng m = Inr (has_chat_role m)"
  by (auto simp: keep_role_def get_def bind_err_def has_chat_role_def)

lemma filter_roles_plain: "JNull \<notin> set ms \<Longrightarrow> filter_roles eng ms = Inr (filter has_chat_role ms)"
  by (induction ms) (auto simp: keep_role_plain bind_err_def)

lemma message_rows_no_null: "message_rows eng ms = Inr rows \<Longrightarrow> JNull \<notin> set ms"
proof (induction ms arbitrary: rows)
  case Nil
  show ?case by simp
next
  case (Cons m ms)
  from Cons.prems have "m \<noteq> JNull"
    by (auto simp: bind_err_def get_def split: if_splits)
  moreover from Cons.prems obtain rows' where "message_rows eng ms = Inr rows'"
    by (auto simp: bind_err_def split: sum.splits)
  ultimately show ?case using Cons.IH by auto
qed

lemma messages_view_array:
  "messages_view eng v = Inr rows \<Longrightarrow> \<exists>ms. v = JArr ms \<and> JNull \<notin> set ms"
  by (cases v) (auto simp: messages_view_def dest: message_rows_no_null)

lemma user_message_not_null: "user_message t \<noteq> JNull"
  by (simp add: user_message_def)

lemma send_begin_drawn:
  assumes "messages st = JArr ms" and "JNull \<notin> set ms"
    and "effective_text userText st \<noteq> []" and "\<not> loading st"
  shows "send_begin eng userText st =
     Awaiting (st\<lparr>messages := JArr (ms @ [user_message (effective_text userText st)]),
                   input := [], loading := True, error := []\<rparr>)
       (ms @ [user_message (effective_text userText st)])
       (chat_request (filter has_chat_role (ms @ [user_message (effective_text userText st)])))"
proof -
  let ?next = "ms @ [user_message (effective_text userText st)]"
  from assms(2) have "JNull \<notin> set ?next" by (auto simp: user_message_def)
  then have "filter_roles eng ?next = Inr (filter has_chat_role ?next)"
    by (rule filter_roles_plain)
  with assms show ?thesis
    by (simp add: send_begin_def Let_def spread_def del: filter_append)
qed

lemma send_begin_part_000_drawn:
  assumes "messages st = JArr ms" and "JNull \<notin> set ms"
    and "trim (input st) \<noteq> []" and "\<not> loading st"
  shows "send_begin_part_000 eng st =
     Awaiting (st\<lparr>messages := JArr (ms @ [user_message (trim (input st))]),
                   input := [], loading := True, error := []\<rparr>)
       (ms @ [user_message (trim (input st))])
       (chat_request (filter has_chat_role (ms @ [user_message (trim (input st))])))"
proof -
  let ?next = "ms @ [user_message (trim (input st))]"
  from assms(2) have "JNull \<notin> set ?next" by (auto simp: user_message_def)
  then have "filter_roles eng ?next = Inr (filter has_chat_role ?next)"
    by (rule filter_roles_plain)
  with assms show ?thesis
    by (simp add: send_begin_part_000_def Let_def spread_def del: filter_append)
qed

lemma send_drawn:
  assumes "messages st = JArr ms" and "JNull \<notin> set ms"
    and "effective_text userText st \<noteq> []" and "\<not> loading st"
  shows "send eng fetch userText st =
     (let next = ms @ [user_message (effective_text userText st)];
          req = chat_request (filter has_chat_role next)
      in case after_fetch eng next (fetch req) of
           Inr v \<Rightarrow> \<lparr> final = st\<lparr>messages := v, input := [], loading := False, error := []\<rparr>,
                      sent = [req], unhandled = None \<rparr>
         | Inl e \<Rightarrow> \<lparr> final = st\<lparr>input := [], loading := False, error := catch_text e\<rparr>,
                      sent = [req], unhandled = None \<rparr>)"
proof -
  let ?next = "ms @ [user_message (effective_text userText st)]"
  let ?req = "chat_request (filter has_chat_role ?next)"
  show ?thesis
  proof (cases "after_fetch eng ?next (fetch ?req)")
    case (Inl e)
    then show ?thesis
      unfolding send_def send_begin_drawn [OF assms] Let_def
      by (simp add: send_resume_def on_failure_def slice_init_def del: filter_append)
        (rule state.equality; simp add: assms(1))
  next
    case (Inr v)
    then show ?thesis
      unfolding send_def send_begin_drawn [OF assms] Let_def
      by (simp add: send_resume_def del: filter_append)
  qed
qed

lemma send_part_000_drawn:
  assumes "messages st = JArr ms" and "JNull \<notin> set ms"
    and "trim (input st) \<noteq> []" and "\<not> loading st"
  shows "send_part_000 eng fetch st =
     (let next = ms @ [user_message (trim (input st))];
          req = chat_request (filter has_chat_role next)
      in case after_fetch eng next (fetch req) of
           Inr v \<Rightarrow> \<lparr> final = st\<lparr>messages := v, input := [], loading := False, error := []\<rparr>,
                      sent = [req], unhandled = None \<rparr>
         | Inl e \<Rightarrow> \<lparr> final = st\<lparr>messages := JArr next, input := [], loading := False,
                                   error := catch_text e\<rparr>,
                      sent = [req], unhandled = None \<rparr>)"
  unfolding send_part_000_def send_begin_part_000_drawn [OF assms] Let_def
  by (simp add: send_resume_part_000_def on_failure_part_000_def del: filter_append
      split: sum.splits)

lemma http_error_throws: "\<exists>e. http_error eng data status = Inl e"
  by (auto simp: http_error_def bind_err_def split: sum.splits)

lemma after_fetch_failure: "\<not> ok status \<Longrightarrow> \<exists>e. after_fetch eng next (Response status reply) = Inl e"
  using http_error_throws [of eng _ status]
  by (cases "JSON_parse eng reply") (auto simp: after_fetch_def bind_err_def)

lemma after_fetch_unparsable:
  "JSON_parse eng reply = Inl e \<Longrightarrow> after_fetch eng next (Response status reply) = Inl e"
  by (simp add: after_fetch_def bind_err_def)

lemma after_fetch_null:
  "JSON_parse eng reply = Inr JNull \<Longrightarrow>
   after_fetch eng next (Response status reply) =
     Inl (if ok status then TypeError (message eng (ReadOfNull ''messages''))
          else GenericError (str ''HTTP '' @ digits_of status))"
  by (simp add: after_fetch_def bind_err_def get_def http_error_def opt_get_def or_else_def)

lemma after_fetch_success:
  "ok status \<Longrightarrow> JSON_parse eng reply = Inr data \<Longrightarrow> data \<noteq> JNull \<Longrightarrow>
   after_fetch eng next (Response status reply) = Inr (or_else (own data Pmessages) (JArr next))"
  by (simp add: after_fetch_def bind_err_def get_def)

lemma or_else_string:
  assumes "or_else a x = JStr m" and "x = JStr m \<Longrightarrow> m \<noteq> []"
  shows "m \<noteq> []"
proof (cases "truthy a")
  case True
  with assms(1) have "a = Some (JStr m)"
    by (cases a) (simp_all add: or_else_def)
  with True show ?thesis by simp
next
  case False
  with assms(1) have "x = JStr m"
    by (cases a) (simp_all add: or_else_def)
  with assms(2) show ?thesis .
qed

lemma after_fetch_http_error:
  assumes "\<not> ok status" and "JSON_parse eng reply = Inr data"
    and "or_else (opt_get data Pmessage)
           (or_else (opt_get data Perror) (JStr (str ''HTTP '' @ digits_of status))) = JStr m"
  shows "after_fetch eng next (Response status reply) = Inl (GenericError m)" and "m \<noteq> []"
proof -
  show "after_fetch eng next (Response status reply) = Inl (GenericError m)"
    using assms by (simp add: after_fetch_def bind_err_def http_error_def)
  have "str ''HTTP '' @ digits_of status \<noteq> []" by (simp add: str_def)
  then have "or_else (opt_get data Perror) (JStr (str ''HTTP '' @ digits_of status)) = JStr m
      \<Longrightarrow> m \<noteq> []"
    by (rule_tac or_else_string) auto
  with assms(3) show "m \<noteq> []" by (rule or_else_string)
qed

text \<open>Facts about the state of the examples.\<close>

lemma example_view:
  "messages_view sample_engine (messages example_state) =
     Inr [(Some (JStr (str ''system'')), Some (JStr (str ''be brief''))),
          (Some (JStr (str ''assistant'')), Some (JStr (str ''Hello'')))]"
  by code_simp

lemma example_messages: "messages example_state = JArr example_history"
  by (simp add: example_state_def)

lemma example_idle: "\<not> loading example_state"
  by (simp add: example_state_def)

lemma example_text: "effective_text None example_state = str ''hi''"
  by code_simp

lemma example_input: "trim (input example_state) = str ''hi''"
  by code_simp

lemma hi_nonempty: "str ''hi'' \<noteq> []"
  by (simp add: str_def)

lemma not_ok_500: "\<not> ok 500"
  by (simp add: ok_def)

lemma ok_200: "ok 200"
  by (simp add: ok_def)

text \<open>
  Claim C6. When the effective text (the argument if it is a string, else the
  input, trimmed) is empty, or when the loading flag is set, \<open>send\<close> changes
  nothing: the four cells of the state keep their values and no request is
  issued. This holds in both clients.
\<close>

theorem send_ignored:
  "(effective_text userText st = [] \<or> loading st \<longrightarrow>
      send eng fetch userText st = \<lparr> final = st, sent = [], unhandled = None \<rparr>) \<and>
   (trim (input st) = [] \<or> loading st \<longrightarrow>
      send_part_000 eng fetch st = \<lparr> final = st, sent = [], unhandled = None \<rparr>)"
  by (auto simp: send_def send_begin_def send_part_000_def send_begin_part_000_def Let_def)

theorem send_ignored_witness:
  "loading (example_state\<lparr>loading := True\<rparr>) \<and>
   send sample_engine (\<lambda>req. Response 200 []) None (example_state\<lparr>loading := True\<rparr>) =
     \<lparr> final = example_state\<lparr>loading := True\<rparr>, sent = [], unhandled = None \<rparr> \<and>
   send_part_000 sample_engine (\<lambda>req. Response 200 []) (example_state\<lparr>loading := True\<rparr>) =
     \<lparr> final = example_state\<lparr>loading := True\<rparr>, sent = [], unhandled = None \<rparr> \<and>
   effective_text None (example_state\<lparr>input := str ''  ''\<rparr>) = [] \<and>
   trim (input (example_state\<lparr>input := str ''  ''\<rparr>)) = [] \<and>
   send sample_engine (\<lambda>req. Response 200 []) None (example_state\<lparr>input := str ''  ''\<rparr>) =
     \<lparr> final = example_state\<lparr>input := str ''  ''\<rparr>, sent = [], unhandled = None \<rparr> \<and>
   send_part_000 sample_engine (\<lambda>req. Response 200 []) (example_state\<lparr>input := str ''  ''\<rparr>) =
     \<lparr> final = example_state\<lparr>input := str ''  ''\<rparr>, sent = [], unhandled = None \<rparr>"
proof -
  have e: "effective_text None (example_state\<lparr>input := str ''  ''\<rparr>) = []"
    by code_simp
  have i: "trim (input (example_state\<lparr>input := str ''  ''\<rparr>)) = []"
    by code_simp
  from send_ignored [of None "example_state\<lparr>loading := True\<rparr>" sample_engine
      "\<lambda>req. Response 200 []"]
    send_ignored [of None "example_state\<lparr>input := str ''  ''\<rparr>" sample_engine
      "\<lambda>req. Response 200 []"] e i
  show ?thesis by simp
qed

text \<open>
  Claim C5. In a state the view was drawn from, with no request in flight and a
  non-empty effective text, \<open>send\<close> issues exactly one request. The \<open>messages\<close> of
  its body are the entries of the history, the new user message included, whose
  role is \<open>user\<close> or \<open>assistant\<close>, in order; every other entry is left out of the
  request and stays in the local list, which is the whole history at that
  moment. This holds in both clients.
\<close>

theorem one_request_with_chat_roles:
  assumes "messages_view eng (messages st) = Inr rows" and "messages st = JArr ms"
    and "\<not> loading st"
  shows
    "(effective_text userText st \<noteq> [] \<longrightarrow>
        (\<exists>st2 next req.
           next = ms @ [user_message (effective_text userText st)] \<and>
           send_begin eng userText st = Awaiting st2 next req \<and>
           messages st2 = JArr next \<and>
           sent (send eng fetch userText st) = [req] \<and>
           own (body req) Pmessages = Some (JArr (filter has_chat_role next)))) \<and>
     (trim (input st) \<noteq> [] \<longrightarrow>
        (\<exists>st2 next req.
           next = ms @ [user_message (trim (input st))] \<and>
           send_begin_part_000 eng st = Awaiting st2 next req \<and>
           messages st2 = JArr next \<and>
           sent (send_part_000 eng fetch st) = [req] \<and>
           own (body req) Pmessages = Some (JArr (filter has_chat_role next))))"
proof -
  from assms(1,2) have nn: "JNull \<notin> set ms"
    by (auto dest: messages_view_array)
  have b: "own (body (chat_request kept)) Pmessages = Some (JArr kept)" for kept
    by (simp add: chat_request_def)
  show ?thesis
  proof (intro conjI impI)
    assume t: "effective_text userText st \<noteq> []"
    show "\<exists>st2 next req.
           next = ms @ [user_message (effective_text userText st)] \<and>
           send_begin eng userText st = Awaiting st2 next req \<and>
           messages st2 = JArr next \<and>
           sent (send eng fetch userText st) = [req] \<and>
           own (body req) Pmessages = Some (JArr (filter has_chat_role next))"
      unfolding send_drawn [OF assms(2) nn t assms(3)] send_begin_drawn [OF assms(2) nn t assms(3)]
      by (auto simp: Let_def b split: sum.splits simp del: filter_append)
  next
    assume t: "trim (input st) \<noteq> []"
    show "\<exists>st2 next req.
           next = ms @ [user_message (trim (input st))] \<and>
           send_begin_part_000 eng st = Awaiting st2 next req \<and>
           messages st2 = JArr next \<and>
           sent (send_part_000 eng fetch st) = [req] \<and>
           own (body req) Pmessages = Some (JArr (filter has_chat_role next))"
      unfolding send_part_000_drawn [OF assms(2) nn t assms(3)]
        send_begin_part_000_drawn [OF assms(2) nn t assms(3)]
      by (auto simp: Let_def b split: sum.splits simp del: filter_append)
  qed
qed

theorem one_request_with_chat_roles_witness:
  "messages_view sample_engine (messages example_state) =
     Inr [(Some (JStr (str ''system'')), Some (JStr (str ''be brief''))),
          (Some (JStr (str ''assistant'')), Some (JStr (str ''Hello'')))] \<and>
   messages example_state = JArr example_history \<and>
   \<not> loading example_state \<and>
   effective_text None example_state = str ''hi'' \<and>
   trim (input example_state) = str ''hi'' \<and>
   (\<exists>req. sent (send sample_engine (\<lambda>req. Response 200 []) None example_state) = [req] \<and>
          own (body req) Pmessages =
            Some (JArr [JObj [(str ''role'', JStr (str ''assistant'')),
                              (str ''content'', JStr (str ''Hello''))],
                        user_message (str ''hi'')])) \<and>
   (\<exists>req. sent (send_part_000 sample_engine (\<lambda>req. Response 200 []) example_state) = [req] \<and>
          own (body req) Pmessages =
            Some (JArr [JObj [(str ''role'', JStr (str ''assistant'')),
                              (str ''content'', JStr (str ''Hello''))],
                        user_message (str ''hi'')]))"
proof -
  have kept: "filter has_chat_role (example_history @ [user_message (str ''hi'')]) =
      [JObj [(str ''role'', JStr (str ''assistant'')), (str ''content'', JStr (str ''Hello''))],
       user_message (str ''hi'')]"
    by code_simp
  note w = one_request_with_chat_roles [OF example_view example_messages example_idle,
      of None "\<lambda>req. Response 200 []", unfolded example_text example_input kept]
  from w hi_nonempty show ?thesis
    using example_view example_messages example_idle example_text example_input
    by (auto simp: kept simp del: filter_append)
qed

text \<open>
  Claim C1, as amended. In a state the view was drawn from, when \<open>send\<close> of
  \<open>App.jsx\<close> issues its request and the response has a status outside 200 to
  299, the message list afterwards is the list before the call: the user
  message appended before the request is removed again.
\<close>

theorem failure_rolls_back:
  assumes "messages_view eng (messages st) = Inr rows" and "messages st = JArr ms"
    and "\<not> loading st" and "effective_text userText st \<noteq> []" and "\<not> ok status"
  shows "sent (send eng (\<lambda>req. Response status reply) userText st) \<noteq> [] \<and>
         messages (final (send eng (\<lambda>req. Response status reply) userText st)) = messages st"
proof -
  from assms(1,2) have nn: "JNull \<notin> set ms"
    by (auto dest: messages_view_array)
  from after_fetch_failure [OF assms(5)] obtain e where
    "after_fetch eng (ms @ [user_message (effective_text userText st)]) (Response status reply) = Inl e"
    by blast
  then show ?thesis
    unfolding send_drawn [OF assms(2) nn assms(4) assms(3)] by (simp add: Let_def)
qed

theorem failure_rolls_back_witness:
  \<open>messages_view sample_engine (messages example_state) =
     Inr [(Some (JStr (str ''system'')), Some (JStr (str ''be brief''))),
          (Some (JStr (str ''assistant'')), Some (JStr (str ''Hello'')))] \<and>
   messages example_state = JArr example_history \<and>
   \<not> loading example_state \<and>
   effective_text None example_state \<noteq> [] \<and>
   \<not> ok 500 \<and>
   sent (send sample_engine (\<lambda>req. Response 500 (str ''{"error":"boom"}'')) None example_state) \<noteq> [] \<and>
   messages (final (send sample_engine (\<lambda>req. Response 500 (str ''{"error":"boom"}'')) None
     example_state)) = JArr example_history\<close>
proof -
  have t: "effective_text None example_state \<noteq> []"
    by (simp add: example_text hi_nonempty)
  from failure_rolls_back [OF example_view example_messages example_idle t not_ok_500,
      of \<open>str ''{"error":"boom"}''\<close>]
  show ?thesis
    using example_view example_messages example_idle t not_ok_500 by simp
qed

text \<open>
  The claim as stated, for both clients, fails on the second client, whose
  \<open>catch\<close> removes nothing: after a response with status 500 its list is the
  list before the call followed by the user message.
\<close>

theorem part_000_keeps_failed_message:
  \<open>\<not> ok 500 \<and>
   sent (send_part_000 sample_engine (\<lambda>req. Response 500 (str ''{"error":"boom"}''))
          (initial_state_part_000\<lparr>input := str ''hi''\<rparr>)) \<noteq> [] \<and>
   messages (final (send_part_000 sample_engine (\<lambda>req. Response 500 (str ''{"error":"boom"}''))
          (initial_state_part_000\<lparr>input := str ''hi''\<rparr>)))
     = JArr [JObj [(str ''role'', JStr (str ''assistant'')),
                   (str ''content'', JStr (str
         ''Hi! Ask me anything. If you ask for PubMed results, I will return JSON.''))],
             user_message (str ''hi'')] \<and>
   messages (final (send_part_000 sample_engine (\<lambda>req. Response 500 (str ''{"error":"boom"}''))
          (initial_state_part_000\<lparr>input := str ''hi''\<rparr>)))
     \<noteq> messages (initial_state_part_000\<lparr>input := str ''hi''\<rparr>)\<close>
  by code_simp

text \<open>
  Claim C4, as amended. When the response has a status from 200 to 299 and its
  body parses to a value other than \<open>null\<close>: if the \<open>messages\<close> of the body is a
  list, the local list afterwards is exactly that list; if the body has no
  \<open>messages\<close>, or a falsy one, the local list is the list before the call followed
  by the user message. This holds in both clients.
\<close>

theorem success_replaces_list:
  assumes "messages_view eng (messages st) = Inr rows" and "messages st = JArr ms"
    and "\<not> loading st" and "ok status"
    and "JSON_parse eng reply = Inr data" and "data \<noteq> JNull"
  shows
    "(effective_text userText st \<noteq> [] \<longrightarrow>
        (own data Pmessages = Some (JArr server) \<longrightarrow>
           messages (final (send eng (\<lambda>req. Response status reply) userText st)) = JArr server) \<and>
        (\<not> truthy (own data Pmessages) \<longrightarrow>
           messages (final (send eng (\<lambda>req. Response status reply) userText st)) =
             JArr (ms @ [user_message (effective_text userText st)]))) \<and>
     (trim (input st) \<noteq> [] \<longrightarrow>
        (own data Pmessages = Some (JArr server) \<longrightarrow>
           messages (final (send_part_000 eng (\<lambda>req. Response status reply) st)) = JArr server) \<and>
        (\<not> truthy (own data Pmessages) \<longrightarrow>
           messages (final (send_part_000 eng (\<lambda>req. Response status reply) st)) =
             JArr (ms @ [user_message (trim (input st))])))"
proof -
  from assms(1,2) have nn: "JNull \<notin> set ms"
    by (auto dest: messages_view_array)
  have falsy: "\<not> truthy a \<Longrightarrow> or_else a d = d" for a d
    by (cases a) (simp_all add: or_else_def)
  show ?thesis
  proof (intro conjI impI)
    assume t: "effective_text userText st \<noteq> []"
    note s = send_drawn [OF assms(2) nn t assms(3), unfolded Let_def]
      after_fetch_success [OF assms(4,5,6)]
    show "messages (final (send eng (\<lambda>req. Response status reply) userText st)) = JArr server"
      if "own data Pmessages = Some (JArr server)"
      unfolding s using that by (simp add: or_else_def)
    show "messages (final (send eng (\<lambda>req. Response status reply) userText st)) =
             JArr (ms @ [user_message (effective_text userText st)])"
      if "\<not> truthy (own data Pmessages)"
      unfolding s using that by (simp add: falsy)
  next
    assume t: "trim (input st) \<noteq> []"
    note s = send_part_000_drawn [OF assms(2) nn t assms(3), unfolded Let_def]
      after_fetch_success [OF assms(4,5,6)]
    show "messages (final (send_part_000 eng (\<lambda>req. Response status reply) st)) = JArr server"
      if "own data Pmessages = Some (JArr server)"
      unfolding s using that by (simp add: or_else_def)
    show "messages (final (send_part_000 eng (\<lambda>req. Response status reply) st)) =
             JArr (ms @ [user_message (trim (input st))])"
      if "\<not> truthy (own data Pmessages)"
      unfolding s using that by (simp add: falsy)
  qed
qed

theorem success_replaces_list_witness:
  \<open>messages_view sample_engine (messages example_state) =
     Inr [(Some (JStr (str ''system'')), Some (JStr (str ''be brief''))),
          (Some (JStr (str ''assistant'')), Some (JStr (str ''Hello'')))] \<and>
   messages example_state = JArr example_history \<and>
   \<not> loading example_state \<and> ok 200 \<and>
   JSON_parse sample_engine (str ''{"messages":[{"role":"assistant","content":"ok"}]}'')
     = Inr (JObj [(str ''messages'',
              JArr [JObj [(str ''role'', JStr (str ''assistant'')),
                          (str ''content'', JStr (str ''ok''))]])]) \<and>
   effective_text None example_state = str ''hi'' \<and>
   trim (input example_state) = str ''hi'' \<and>
   messages (final (send sample_engine
       (\<lambda>req. Response 200 (str ''{"messages":[{"role":"assistant","content":"ok"}]}'')) None
       example_state))
     = JArr [JObj [(str ''role'', JStr (str ''assistant'')), (str ''content'', JStr (str ''ok''))]] \<and>
   messages (final (send_part_000 sample_engine
       (\<lambda>req. Response 200 (str ''{"messages":[{"role":"assistant","content":"ok"}]}''))
       example_state))
     = JArr [JObj [(str ''role'', JStr (str ''assistant'')), (str ''content'', JStr (str ''ok''))]] \<and>
   JSON_parse sample_engine (str ''{}'') = Inr (JObj []) \<and>
   messages (final (send sample_engine (\<lambda>req. Response 200 (str ''{}'')) None example_state))
     = JArr (example_history @ [user_message (str ''hi'')]) \<and>
   messages (final (send_part_000 sample_engine (\<lambda>req. Response 200 (str ''{}'')) example_state))
     = JArr (example_history @ [user_message (str ''hi'')])\<close>
proof -
  let ?server = "[JObj [(str ''role'', JStr (str ''assistant'')), (str ''content'', JStr (str ''ok''))]]"
  let ?data = "JObj [(str ''messages'', JArr ?server)]"
  have p1: \<open>JSON_parse sample_engine (str ''{"messages":[{"role":"assistant","content":"ok"}]}'')
      = Inr ?data\<close>
    by code_simp
  have p2: \<open>JSON_parse sample_engine (str ''{}'') = Inr (JObj [])\<close>
    by code_simp
  have o1: "own ?data Pmessages = Some (JArr ?server)" by (simp add: str_def)
  have o2: "\<not> truthy (own (JObj []) Pmessages)" by simp
  note w1 = success_replaces_list [OF example_view example_messages example_idle ok_200 p1,
      of None ?server, unfolded example_text example_input]
  note w2 = success_replaces_list [OF example_view example_messages example_idle ok_200 p2,
      of None ?server, unfolded example_text example_input]
  from w1 w2 o1 o2 hi_nonempty show ?thesis
    using example_view example_messages example_idle example_text example_input ok_200 p1 p2
    by simp
qed

text \<open>
  The claim as stated fails in \<open>App.jsx\<close> on a response with status 200 and the
  body \<open>null\<close>: the body parses, provides no list, and the local list afterwards
  is the list before the call, not the optimistic one; an error is shown.
\<close>

theorem null_body_counterexample:
  \<open>ok 200 \<and>
   JSON_parse sample_engine (str ''null'') = Inr JNull \<and>
   sent (send sample_engine (\<lambda>req. Response 200 (str ''null'')) None
          (initial_state\<lparr>input := str ''hi''\<rparr>)) \<noteq> [] \<and>
   messages (final (send sample_engine (\<lambda>req. Response 200 (str ''null'')) None
          (initial_state\<lparr>input := str ''hi''\<rparr>))) = JArr [] \<and>
   messages (final (send sample_engine (\<lambda>req. Response 200 (str ''null'')) None
          (initial_state\<lparr>input := str ''hi''\<rparr>))) \<noteq> JArr [user_message (str ''hi'')] \<and>
   error (final (send sample_engine (\<lambda>req. Response 200 (str ''null'')) None
          (initial_state\<lparr>input := str ''hi''\<rparr>)))
     = str ''Cannot read properties of null (reading messages)''\<close>
  by code_simp

text \<open>
  Claim C7, as amended. When the response has a status outside 200 to 299 and
  its body parses as JSON, the error text is the first truthy one of the
  \<open>message\<close> of the body, its \<open>error\<close>, and the text \<open>HTTP\<close> followed by the
  status, when that choice is a string. This holds in both clients.
\<close>

theorem failure_error_text:
  assumes "messages_view eng (messages st) = Inr rows" and "messages st = JArr ms"
    and "\<not> loading st" and "\<not> ok status"
    and "JSON_parse eng reply = Inr data"
    and "or_else (opt_get data Pmessage)
           (or_else (opt_get data Perror) (JStr (str ''HTTP '' @ digits_of status))) = JStr m"
  shows
    "(effective_text userText st \<noteq> [] \<longrightarrow>
        error (final (send eng (\<lambda>req. Response status reply) userText st)) = m) \<and>
     (trim (input st) \<noteq> [] \<longrightarrow>
        error (final (send_part_000 eng (\<lambda>req. Response status reply) st)) = m)"
proof -
  from assms(1,2) have nn: "JNull \<notin> set ms"
    by (auto dest: messages_view_array)
  note h = after_fetch_http_error [OF assms(4,5,6)]
  show ?thesis
  proof (intro conjI impI)
    assume t: "effective_text userText st \<noteq> []"
    show "error (final (send eng (\<lambda>req. Response status reply) userText st)) = m"
      unfolding send_drawn [OF assms(2) nn t assms(3), unfolded Let_def] h(1)
      using h(2) by (simp add: catch_text_def)
  next
    assume t: "trim (input st) \<noteq> []"
    show "error (final (send_part_000 eng (\<lambda>req. Response status reply) st)) = m"
      unfolding send_part_000_drawn [OF assms(2) nn t assms(3), unfolded Let_def] h(1)
      using h(2) by (simp add: catch_text_def)
  qed
qed

theorem failure_error_text_witness:
  \<open>messages_view sample_engine (messages example_state) =
     Inr [(Some (JStr (str ''system'')), Some (JStr (str ''be brief''))),
          (Some (JStr (str ''assistant'')), Some (JStr (str ''Hello'')))] \<and>
   messages example_state = JArr example_history \<and>
   \<not> loading example_state \<and> \<not> ok 500 \<and>
   JSON_parse sample_engine (str ''{"error":"boom"}'')
     = Inr (JObj [(str ''error'', JStr (str ''boom''))]) \<and>
   or_else (opt_get (JObj [(str ''error'', JStr (str ''boom''))]) Pmessage)
     (or_else (opt_get (JObj [(str ''error'', JStr (str ''boom''))]) Perror)
        (JStr (str ''HTTP '' @ digits_of 500))) = JStr (str ''boom'') \<and>
   effective_text None example_state = str ''hi'' \<and>
   trim (input example_state) = str ''hi'' \<and>
   error (final (send sample_engine (\<lambda>req. Response 500 (str ''{"error":"boom"}'')) None
     example_state)) = str ''boom'' \<and>
   error (final (send_part_000 sample_engine (\<lambda>req. Response 500 (str ''{"error":"boom"}''))
     example_state)) = str ''boom''\<close>
proof -
  let ?data = "JObj [(str ''error'', JStr (str ''boom''))]"
  have p1: \<open>JSON_parse sample_engine (str ''{"error":"boom"}'') = Inr ?data\<close>
    by code_simp
  have c1: "or_else (opt_get ?data Pmessage)
     (or_else (opt_get ?data Perror) (JStr (str ''HTTP '' @ digits_of 500))) = JStr (str ''boom'')"
    by code_simp
  note w = failure_error_text [OF example_view example_messages example_idle not_ok_500 p1 c1,
      of None, unfolded example_text example_input]
  from w p1 c1 hi_nonempty show ?thesis
    using example_view example_messages example_idle example_text example_input not_ok_500
    by simp
qed

text \<open>
  The claim as stated fails on a response with status 502 and a body that is
  not JSON, where the error text is that of the parse error and not \<open>HTTP 502\<close>,
  and on a body whose \<open>message\<close> is present and empty, where the error text is
  the \<open>error\<close> of the body.
\<close>

theorem error_preference_counterexample:
  \<open>\<not> ok 502 \<and>
   error (final (send sample_engine (\<lambda>req. Response 502 (str ''<html>'')) None
          (initial_state\<lparr>input := str ''hi''\<rparr>))) = str ''Unexpected token in JSON'' \<and>
   error (final (send sample_engine (\<lambda>req. Response 502 (str ''<html>'')) None
          (initial_state\<lparr>input := str ''hi''\<rparr>))) \<noteq> str ''HTTP 502'' \<and>
   \<not> ok 500 \<and>
   JSON_parse sample_engine (str ''{"message":"","error":"boom"}'')
     = Inr (JObj [(str ''message'', JStr []), (str ''error'', JStr (str ''boom''))]) \<and>
   error (final (send sample_engine (\<lambda>req. Response 500 (str ''{"message":"","error":"boom"}''))
          None (initial_state\<lparr>input := str ''hi''\<rparr>))) = str ''boom''\<close>
  by code_simp

text \<open>
  Claim C10. When the body of the response is not valid JSON, whatever the
  status, \<open>send\<close> takes the failure path: the rejection of \<open>resp.json()\<close> is caught
  and its message becomes the error text, the list is not replaced, and in
  \<open>App.jsx\<close> the user message is removed from the list again, while the second
  client keeps it. A body that is JSON \<open>null\<close> fails in the same way: with a status
  from 200 to 299 the error is the TypeError of reading \<open>messages\<close> of \<open>null\<close>,
  otherwise the error \<open>HTTP\<close> followed by the status.
\<close>

theorem unparsable_body_fails:
  assumes "messages_view eng (messages st) = Inr rows" and "messages st = JArr ms"
    and "\<not> loading st"
  shows
    "(JSON_parse eng reply = Inl e \<and> err_message e \<noteq> [] \<longrightarrow>
        (effective_text userText st \<noteq> [] \<longrightarrow>
           final (send eng (\<lambda>req. Response status reply) userText st) =
             st\<lparr>input := [], loading := False, error := err_message e\<rparr>) \<and>
        (trim (input st) \<noteq> [] \<longrightarrow>
           final (send_part_000 eng (\<lambda>req. Response status reply) st) =
             st\<lparr>messages := JArr (ms @ [user_message (trim (input st))]),
                input := [], loading := False, error := err_message e\<rparr>)) \<and>
     (JSON_parse eng reply = Inr JNull \<longrightarrow>
        (effective_text userText st \<noteq> [] \<longrightarrow>
           final (send eng (\<lambda>req. Response status reply) userText st) =
             st\<lparr>input := [], loading := False,
                error := catch_text
                  (if ok status then TypeError (message eng (ReadOfNull ''messages''))
                   else GenericError (str ''HTTP '' @ digits_of status))\<rparr>) \<and>
        (trim (input st) \<noteq> [] \<longrightarrow>
           final (send_part_000 eng (\<lambda>req. Response status reply) st) =
             st\<lparr>messages := JArr (ms @ [user_message (trim (input st))]),
                input := [], loading := False,
                error := catch_text
                  (if ok status then TypeError (message eng (ReadOfNull ''messages''))
                   else GenericError (str ''HTTP '' @ digits_of status))\<rparr>))"
proof -
  from assms(1,2) have nn: "JNull \<notin> set ms"
    by (auto dest: messages_view_array)
  show ?thesis
  proof (intro conjI impI; (elim conjE)?)
    assume p: "JSON_parse eng reply = Inl e" and m: "err_message e \<noteq> []"
    note h = after_fetch_unparsable [OF p]
    show "final (send eng (\<lambda>req. Response status reply) userText st) =
             st\<lparr>input := [], loading := False, error := err_message e\<rparr>"
      if t: "effective_text userText st \<noteq> []"
      unfolding send_drawn [OF assms(2) nn t assms(3), unfolded Let_def] h
      using m by (simp add: catch_text_def)
    show "final (send_part_000 eng (\<lambda>req. Response status reply) st) =
             st\<lparr>messages := JArr (ms @ [user_message (trim (input st))]),
                input := [], loading := False, error := err_message e\<rparr>"
      if t: "trim (input st) \<noteq> []"
      unfolding send_part_000_drawn [OF assms(2) nn t assms(3), unfolded Let_def] h
      using m by (simp add: catch_text_def)
  next
    assume p: "JSON_parse eng reply = Inr JNull"
    note h = after_fetch_null [OF p]
    show "final (send eng (\<lambda>req. Response status reply) userText st) =
             st\<lparr>input := [], loading := False,
                error := catch_text
                  (if ok status then TypeError (message eng (ReadOfNull ''messages''))
                   else GenericError (str ''HTTP '' @ digits_of status))\<rparr>"
      if t: "effective_text userText st \<noteq> []"
      unfolding send_drawn [OF assms(2) nn t assms(3), unfolded Let_def] h by simp
    show "final (send_part_000 eng (\<lambda>req. Response status reply) st) =
             st\<lparr>messages := JArr (ms @ [user_message (trim (input st))]),
                input := [], loading := False,
                error := catch_text
                  (if ok status then TypeError (message eng (ReadOfNull ''messages''))
                   else GenericError (str ''HTTP '' @ digits_of status))\<rparr>"
      if t: "trim (input st) \<noteq> []"
      unfolding send_part_000_drawn [OF assms(2) nn t assms(3), unfolded Let_def] h by simp
  qed
qed

theorem unparsable_body_fails_witness:
  \<open>messages_view sample_engine (messages example_state) =
     Inr [(Some (JStr (str ''system'')), Some (JStr (str ''be brief''))),
          (Some (JStr (str ''assistant'')), Some (JStr (str ''Hello'')))] \<and>
   messages example_state = JArr example_history \<and>
   \<not> loading example_state \<and>
   effective_text None example_state = str ''hi'' \<and>
   trim (input example_state) = str ''hi'' \<and>
   JSON_parse sample_engine (str ''<html>'') = Inl (SyntaxError (str ''Unexpected token in JSON'')) \<and>
   err_message (SyntaxError (str ''Unexpected token in JSON'')) \<noteq> [] \<and>
   final (send sample_engine (\<lambda>req. Response 200 (str ''<html>'')) None example_state)
     = example_state\<lparr>input := [], loading := False, error := str ''Unexpected token in JSON''\<rparr> \<and>
   final (send_part_000 sample_engine (\<lambda>req. Response 200 (str ''<html>'')) example_state)
     = example_state\<lparr>messages := JArr (example_history @ [user_message (str ''hi'')]),
         input := [], loading := False, error := str ''Unexpected token in JSON''\<rparr> \<and>
   JSON_parse sample_engine (str ''null'') = Inr JNull \<and>
   final (send sample_engine (\<lambda>req. Response 200 (str ''null'')) None example_state)
     = example_state\<lparr>input := [], loading := False,
         error := str ''Cannot read properties of null (reading messages)''\<rparr> \<and>
   final (send_part_000 sample_engine (\<lambda>req. Response 200 (str ''null'')) example_state)
     = example_state\<lparr>messages := JArr (example_history @ [user_message (str ''hi'')]),
         input := [], loading := False,
         error := str ''Cannot read properties of null (reading messages)''\<rparr>\<close>
proof -
  let ?e = "SyntaxError (str ''Unexpected token in JSON'')"
  have p1: \<open>JSON_parse sample_engine (str ''<html>'') = Inl ?e\<close>
    by code_simp
  have m1: "err_message ?e \<noteq> []" by (simp add: str_def)
  have m1': "err_message ?e = str ''Unexpected token in JSON''" by simp
  have p2: \<open>JSON_parse sample_engine (str ''null'') = Inr JNull\<close>
    by code_simp
  have t: "catch_text (TypeError (message sample_engine (ReadOfNull ''messages'')))
      = str ''Cannot read properties of null (reading messages)''"
    by code_simp
  note w1 = unparsable_body_fails [OF example_view example_messages example_idle,
      of \<open>str ''<html>''\<close> ?e None 200, unfolded example_text example_input m1']
  note w2 = unparsable_body_fails [OF example_view example_messages example_idle,
      of \<open>str ''null''\<close> ?e None 200, unfolded example_text example_input]
  from w1 w2 p1 m1 p2 t hi_nonempty ok_200 show ?thesis
    using example_view example_messages example_idle example_text example_input
    by simp
qed

end
